theory Spec2Isabelle
  imports Main "HOL-Library.Sublist" "HOL-Library.AList"
begin

section \<open>Strings of the host language\<close>

text \<open>
  The program is TypeScript: a string is a sequence of UTF-16 code units. The model uses
  \<^typ>\<open>string\<close>, one \<^typ>\<open>char\<close> for one code unit below 256 (ASCII and Latin-1), which is
  closed under every string operation the program applies. The built-in methods
  (\<^verbatim>\<open>toLowerCase\<close>, \<^verbatim>\<open>trim\<close>, \<^verbatim>\<open>split\<close>, \<^verbatim>\<open>startsWith\<close>, \<^verbatim>\<open>replace\<close>) are written out
  as the language standard defines them on that range.
\<close>

definition code :: "char \<Rightarrow> nat" where
  "code c = of_char c"

text \<open>\<^verbatim>\<open>toLowerCase\<close>: A-Z and the upper-case letters of Latin-1 (U+00C0 to U+00DE, the
  multiplication sign U+00D7 apart) move up by 32; every other code unit stays.\<close>

definition toLowerChar :: "char \<Rightarrow> char" where
  "toLowerChar c =
     (if (65 \<le> code c \<and> code c \<le> 90) \<or> (192 \<le> code c \<and> code c \<le> 222 \<and> code c \<noteq> 215)
      then char_of (code c + 32) else c)"

definition toLowerCase :: "string \<Rightarrow> string" where
  "toLowerCase s = map toLowerChar s"

text \<open>White space as \<^verbatim>\<open>trim\<close> and the regular expression class \<^verbatim>\<open>\s\<close> read it: tab, line
  feed, vertical tab, form feed, carriage return, space and the no-break space.\<close>

definition isSpace :: "char \<Rightarrow> bool" where
  "isSpace c = (code c \<in> {9, 10, 11, 12, 13, 32, 160})"

definition dropWhileEnd :: "('a \<Rightarrow> bool) \<Rightarrow> 'a list \<Rightarrow> 'a list" where
  "dropWhileEnd P xs = rev (dropWhile P (rev xs))"

definition trim :: "string \<Rightarrow> string" where
  "trim s = dropWhileEnd isSpace (dropWhile isSpace s)"

definition startsWith :: "string \<Rightarrow> string \<Rightarrow> bool" where
  "startsWith s p = (take (length p) s = p)"

subsection \<open>slugify\<close>

text \<open>
  \<^verbatim>\<open>input.toLowerCase().trim().replace(/[^a-z0-9]+/g, "-").replace(/^-+|-+$/g, "")\<close>
\<close>

definition isSlugChar :: "char \<Rightarrow> bool" where
  "isSlugChar c = ((97 \<le> code c \<and> code c \<le> 122) \<or> (48 \<le> code c \<and> code c \<le> 57))"

text \<open>\<^verbatim>\<open>replace(/[^a-z0-9]+/g, "-")\<close>: every maximal run of characters outside a-z and 0-9
  becomes one hyphen.\<close>

function collapseRuns :: "string \<Rightarrow> string" where
  "collapseRuns [] = []"
| "collapseRuns (c # cs) =
     (if isSlugChar c then c # collapseRuns cs
      else CHR ''-'' # collapseRuns (dropWhile (\<lambda>d. \<not> isSlugChar d) cs))"
  by pat_completeness auto
termination
  by (relation "measure length") (auto simp: less_Suc_eq_le length_dropWhile_le)

text \<open>\<^verbatim>\<open>replace(/^-+|-+$/g, "")\<close>: the hyphens at the start and those at the end go.\<close>

definition stripHyphens :: "string \<Rightarrow> string" where
  "stripHyphens s = dropWhileEnd (\<lambda>c. c = CHR ''-'') (dropWhile (\<lambda>c. c = CHR ''-'') s)"

definition slugify :: "string \<Rightarrow> string" where
  "slugify input = stripHyphens (collapseRuns (trim (toLowerCase input)))"

subsection \<open>renderTemplate\<close>

text \<open>
  \<^verbatim>\<open>tmpl.replace(/\{\{([^}]+)\}\}/g, callback)\<close> scans the template from the left. At a
  position the pattern matches when the text there is two opening braces, then the longest
  run of characters other than a closing brace, which must not be empty, then two closing
  braces (a shorter run cannot be followed by a closing brace, so backtracking finds
  nothing else). \<open>matchVar\<close> returns the captured group and the text after the match.
\<close>

definition matchVar :: "string \<Rightarrow> (string \<times> string) option" where
  "matchVar s =
     (if startsWith s ''{{'' then
        (let body = drop 2 s;
             rawKey = takeWhile (\<lambda>c. c \<noteq> CHR ''}'') body;
             after = dropWhile (\<lambda>c. c \<noteq> CHR ''}'') body
         in if rawKey \<noteq> [] \<and> startsWith after ''}}'' then Some (rawKey, drop 2 after) else None)
      else None)"

text \<open>The global replace: where the pattern matches, the callback's result is put in and
  the scan goes on behind the match; elsewhere the character is copied. The callback's
  result is inserted as it is (a function replacement is never read for \<^verbatim>\<open>$\<close> patterns).\<close>

function replaceVars :: "(string \<Rightarrow> string) \<Rightarrow> string \<Rightarrow> string" where
  "replaceVars f [] = []"
| "replaceVars f (c # cs) =
     (case matchVar (c # cs) of
        Some (rawKey, rest) \<Rightarrow> f rawKey @ replaceVars f rest
      | None \<Rightarrow> c # replaceVars f cs)"
  by pat_completeness auto
termination
proof (relation "measure (\<lambda>(f, s). length s)")
  fix f :: "string \<Rightarrow> string" and c cs x2 rawKey rest
  assume "matchVar (c # cs) = Some x2" and "(rawKey, rest) = x2"
  then have "rest = drop 2 (dropWhile (\<lambda>c. c \<noteq> CHR ''}'') (drop 2 (c # cs)))"
    by (auto simp: matchVar_def Let_def split: if_splits)
  moreover have "length (dropWhile (\<lambda>c. c \<noteq> CHR ''}'') (drop 2 (c # cs))) \<le> length cs"
    using length_dropWhile_le[of "\<lambda>c. c \<noteq> CHR ''}''" "drop 2 (c # cs)"] by simp
  ultimately show "((f, rest), (f, c # cs)) \<in> measure (\<lambda>(f, s). length s)"
    by simp
qed simp_all

declare replaceVars.simps(2) [simp del]

text \<open>\<^verbatim>\<open>rawKey.split("|")\<close>: the pieces between the separators, at least one.\<close>

fun splitOn :: "char \<Rightarrow> string \<Rightarrow> string list" where
  "splitOn sep [] = [[]]"
| "splitOn sep (c # cs) =
     (if c = sep then [] # splitOn sep cs
      else (case splitOn sep cs of p # ps \<Rightarrow> (c # p) # ps | [] \<Rightarrow> [[c]]))"

text \<open>
  The variable mapping is a plain object (the object literal of createEntity, lines 273 to
  284): \<^verbatim>\<open>vars[key]\<close> is the object's own property of that name, and for a name the object
  does not have, what it inherits from \<^verbatim>\<open>Object.prototype\<close>; \<^verbatim>\<open>undefined\<close> only for a name
  that is in neither. The own properties are a partial map from names to strings. The
  inherited members are built-in functions and, under \<^verbatim>\<open>__proto__\<close>, the prototype object
  itself; \<^verbatim>\<open>replace\<close> converts what the callback returns to a string, so an inherited
  member comes out as the text the engine gives it (the program runs under Node).
\<close>

definition objectPrototype :: "(string \<times> string) list" where
  "objectPrototype =
     [(''constructor'', ''function Object() { [native code] }''),
      (''__defineGetter__'', ''function __defineGetter__() { [native code] }''),
      (''__defineSetter__'', ''function __defineSetter__() { [native code] }''),
      (''hasOwnProperty'', ''function hasOwnProperty() { [native code] }''),
      (''__lookupGetter__'', ''function __lookupGetter__() { [native code] }''),
      (''__lookupSetter__'', ''function __lookupSetter__() { [native code] }''),
      (''isPrototypeOf'', ''function isPrototypeOf() { [native code] }''),
      (''propertyIsEnumerable'', ''function propertyIsEnumerable() { [native code] }''),
      (''toString'', ''function toString() { [native code] }''),
      (''valueOf'', ''function valueOf() { [native code] }''),
      (''__proto__'', ''[object Object]''),
      (''toLocaleString'', ''function toLocaleString() { [native code] }'')]"

definition inherited :: "string \<Rightarrow> string option" where
  "inherited key = map_of objectPrototype key"

definition property :: "(string \<rightharpoonup> string) \<Rightarrow> string \<Rightarrow> string option" where
  "property vars key = (case vars key of Some val \<Rightarrow> Some val | None \<Rightarrow> inherited key)"

text \<open>
  The callback: \<^verbatim>\<open>const [key, def] = rawKey.split("|").map((s) => s.trim())\<close>, then
  \<^verbatim>\<open>const val = vars[key]; return val ?? def ?? ""\<close>. The operator \<^verbatim>\<open>??\<close> passes on to its
  right operand only from \<^verbatim>\<open>undefined\<close>, so a value that is the empty string is returned,
  and so is an inherited member. \<^verbatim>\<open>def\<close> is \<^verbatim>\<open>undefined\<close> when the split has one piece only;
  pieces after the second are dropped.
\<close>

definition resolveVar :: "(string \<rightharpoonup> string) \<Rightarrow> string \<Rightarrow> string" where
  "resolveVar vars rawKey =
     (case map trim (splitOn CHR ''|'' rawKey) of
        [] \<Rightarrow> []
      | key # others \<Rightarrow>
          (case property vars key of
             Some val \<Rightarrow> val
           | None \<Rightarrow> (case others of [] \<Rightarrow> [] | def # _ \<Rightarrow> def)))"

definition renderTemplate :: "string \<Rightarrow> (string \<rightharpoonup> string) \<Rightarrow> string" where
  "renderTemplate tmpl vars = replaceVars (resolveVar vars) tmpl"

subsection \<open>Templates as sequences of text and placeholders\<close>

text \<open>
  A template put together from plain text and placeholders is written as a sequence of
  pieces: literal text, or a placeholder with a key and an optional default. \<open>written\<close> is
  the template text of a piece. A piece is well formed when the text holds no opening
  brace, and the key and the default hold neither a closing brace nor the separator; a
  placeholder without a default has a key of at least one character (the pattern does not
  match an empty pair of braces).
\<close>

datatype piece = Text string | Token string "string option"

fun written :: "piece \<Rightarrow> string" where
  "written (Text s) = s"
| "written (Token key None) = ''{{'' @ key @ ''}}''"
| "written (Token key (Some dflt)) = ''{{'' @ key @ ''|'' @ dflt @ ''}}''"







subsection \<open>Placeholders by position\<close>


section \<open>The file system and paths\<close>

text \<open>
  The vault is a directory tree. A location is the list of names from the root directory
  down; the file system is an association list from locations to nodes, a file with its
  text or a directory, in the order in which a directory lists its entries. The root
  directory always exists. The calls of the \<^verbatim>\<open>fs\<close> module that the program makes are functions
  of that list; one that fails returns the exception instead (which exception it is plays
  no role in the program, only that there is one).
\<close>

type_synonym path = "string list"

datatype node = File string | Dir

type_synonym fs = "(path \<times> node) list"

datatype exn = ENOENT | ENOTDIR | EISDIR | EEXIST | TypeError

definition lookup :: "fs \<Rightarrow> path \<Rightarrow> node option" where
  "lookup fs p = (if p = [] then Some Dir else map_of fs p)"

definition existsSync :: "fs \<Rightarrow> path \<Rightarrow> bool" where
  "existsSync fs p = (lookup fs p \<noteq> None)"

definition readdirSync :: "fs \<Rightarrow> path \<Rightarrow> exn + string list" where
  "readdirSync fs p =
     (case lookup fs p of
        None \<Rightarrow> Inl ENOENT
      | Some (File _) \<Rightarrow> Inl ENOTDIR
      | Some Dir \<Rightarrow> Inr (map (\<lambda>e. last (fst e)) (filter (\<lambda>e. fst e \<noteq> [] \<and> butlast (fst e) = p) fs)))"

definition readFileSync :: "fs \<Rightarrow> path \<Rightarrow> exn + string" where
  "readFileSync fs p =
     (case lookup fs p of
        None \<Rightarrow> Inl ENOENT
      | Some Dir \<Rightarrow> Inl EISDIR
      | Some (File text) \<Rightarrow> Inr text)"

text \<open>\<^verbatim>\<open>writeFileSync\<close> replaces the text of an existing file in place and makes a new file
  in an existing directory; it makes no directory.\<close>

definition writeFileSync :: "fs \<Rightarrow> path \<Rightarrow> string \<Rightarrow> exn + fs" where
  "writeFileSync fs p text =
     (case lookup fs p of
        Some Dir \<Rightarrow> Inl EISDIR
      | Some (File _) \<Rightarrow> Inr (AList.update p (File text) fs)
      | None \<Rightarrow>
          (case lookup fs (butlast p) of
             Some Dir \<Rightarrow> Inr (AList.update p (File text) fs)
           | Some (File _) \<Rightarrow> Inl ENOTDIR
           | None \<Rightarrow> Inl ENOENT))"

definition unlinkSync :: "fs \<Rightarrow> path \<Rightarrow> exn + fs" where
  "unlinkSync fs p =
     (case lookup fs p of
        None \<Rightarrow> Inl ENOENT
      | Some Dir \<Rightarrow> Inl EISDIR
      | Some (File _) \<Rightarrow> Inr (AList.delete p fs))"

text \<open>\<^verbatim>\<open>mkdirSync(path, { recursive: true })\<close> makes every missing directory on the way down
  and fails on a file in the way.\<close>

fun mkdirs :: "fs \<Rightarrow> path \<Rightarrow> string list \<Rightarrow> exn + fs" where
  "mkdirs fs base [] = Inr fs"
| "mkdirs fs base (c # cs) =
     (case lookup fs (base @ [c]) of
        Some (File _) \<Rightarrow> Inl (if cs = [] then EEXIST else ENOTDIR)
      | Some Dir \<Rightarrow> mkdirs fs (base @ [c]) cs
      | None \<Rightarrow> mkdirs (AList.update (base @ [c]) Dir fs) (base @ [c]) cs)"

definition mkdirSync :: "fs \<Rightarrow> path \<Rightarrow> exn + fs" where
  "mkdirSync fs p = mkdirs fs [] p"

text \<open>\<^verbatim>\<open>function ensureDir(path) { if (!existsSync(path)) mkdirSync(path, { recursive: true }) }\<close>\<close>

definition ensureDir :: "fs \<Rightarrow> path \<Rightarrow> exn + fs" where
  "ensureDir fs p = (if \<not> existsSync fs p then mkdirSync fs p else Inr fs)"

subsection \<open>path.join and path.dirname\<close>

text \<open>
  \<^verbatim>\<open>join\<close> puts its arguments together with slashes and normalises the result: an empty
  segment and \<^verbatim>\<open>.\<close> are dropped, \<^verbatim>\<open>..\<close> removes the segment before it. \<open>normalizeSegs\<close> is that
  pass over the segments (\<open>allowAbove\<close> keeps a leading \<^verbatim>\<open>..\<close>, as for a relative path).
  The vault path is absolute, so a path joined to it names the location reached from the
  root directory; \<open>join base parts\<close> is the location named by \<^verbatim>\<open>join(base, ...parts)\<close> for a
  \<open>base\<close> that is itself such a location. Where the program keeps the result of joining
  relative paths as a string, \<open>joinStr\<close> is that string.
\<close>

definition segments :: "string \<Rightarrow> string list" where
  "segments s = splitOn CHR ''/'' s"

fun normalizeSegs :: "bool \<Rightarrow> string list \<Rightarrow> string list \<Rightarrow> string list" where
  "normalizeSegs allowAbove acc [] = acc"
| "normalizeSegs allowAbove acc (c # cs) =
     (if c = [] \<or> c = ''.'' then normalizeSegs allowAbove acc cs
      else if c = ''..'' then
        (if acc \<noteq> [] \<and> last acc \<noteq> ''..'' then normalizeSegs allowAbove (butlast acc) cs
         else if allowAbove then normalizeSegs allowAbove (acc @ [''..'']) cs
         else normalizeSegs allowAbove acc cs)
      else normalizeSegs allowAbove (acc @ [c]) cs)"

definition pathOf :: "string \<Rightarrow> path" where
  "pathOf s = normalizeSegs False [] (segments s)"

definition join :: "path \<Rightarrow> string list \<Rightarrow> path" where
  "join base parts = normalizeSegs False base (concat (map segments parts))"

definition dirname :: "path \<Rightarrow> path" where
  "dirname p = butlast p"

fun joinSegs :: "string list \<Rightarrow> string" where
  "joinSegs [] = []"
| "joinSegs [s] = s"
| "joinSegs (s # t # ss) = s @ ''/'' @ joinSegs (t # ss)"

definition normalizeStr :: "string \<Rightarrow> string" where
  "normalizeStr p =
     (let isAbsolute = (hd p = CHR ''/'');
          trailingSeparator = (last p = CHR ''/'');
          body = joinSegs (normalizeSegs (\<not> isAbsolute) [] (segments p))
      in if body = [] then (if isAbsolute then ''/'' else if trailingSeparator then ''./'' else ''.'')
         else (if isAbsolute then ''/'' else []) @ body @ (if trailingSeparator then ''/'' else []))"

definition joinStr :: "string list \<Rightarrow> string" where
  "joinStr parts =
     (let joined = joinSegs (filter (\<lambda>p. p \<noteq> []) parts)
      in if joined = [] then ''.'' else normalizeStr joined)"

text \<open>
  A name that a directory can list: not empty, not \<^verbatim>\<open>.\<close> or \<^verbatim>\<open>..\<close>, without a slash. In a
  well-formed file system every entry has such a name and lies in a directory.
\<close>

definition properName :: "string \<Rightarrow> bool" where
  "properName n = (n \<noteq> [] \<and> n \<noteq> ''.'' \<and> n \<noteq> ''..'' \<and> CHR ''/'' \<notin> set n)"


subsection \<open>The configuration\<close>

text \<open>
  \<^verbatim>\<open>templates.yml\<close>, parsed: the vault path, the roots the modelled commands read, and the
  templates by name. A template has the optional fields of \<^verbatim>\<open>interface EntityTemplate\<close>;
  the two fields of \<^verbatim>\<open>interface TemplateFile\<close> are \<open>entryName\<close> and \<open>entryTemplate\<close> here (a field
  name is taken once). The configuration is read by every command before anything else and
  is an argument here.
\<close>

record TemplateFile =
  entryName :: string
  entryTemplate :: string

record EntityTemplate =
  folderPattern :: "string option"
  filePath :: "string option"
  files :: "TemplateFile list option"
  template :: "string option"

record Config =
  vaultPath :: string
  areasRoot :: string
  projectsRoot :: string
  resourcesRoot :: string
  templates :: "string \<rightharpoonup> EntityTemplate"

definition vault :: "Config \<Rightarrow> path" where
  "vault config = pathOf (vaultPath config)"

text \<open>What a command leaves behind: it returns, it ends the process with
  \<^verbatim>\<open>process.exit(1)\<close>, or an exception that nothing catches ends it.\<close>

datatype outcome = Returned | Exit1 | Uncaught exn

section \<open>Generating a free prefix\<close>

text \<open>
  \<^verbatim>\<open>Math.random\<close> is a sequence \<open>rnd\<close> of draws: the \<open>k\<close>-th evaluation of
  \<^verbatim>\<open>Math.floor(Math.random() * chars.length)\<close> is \<open>rnd k mod length chars\<close>, an index into
  the 26 letters as in the source. A function that draws takes the number of draws made
  so far and returns the number after it.
\<close>

definition chars :: string where
  "chars = ''abcdefghijklmnopqrstuvwxyz''"

definition letter :: "nat \<Rightarrow> char" where
  "letter d = chars ! (d mod length chars)"

definition drawPrefix :: "nat \<Rightarrow> (nat \<Rightarrow> nat) \<Rightarrow> nat \<Rightarrow> string" where
  "drawPrefix n rnd i = map (\<lambda>k. letter (rnd (i + k))) [0..<n]"

text \<open>
  \<^verbatim>\<open>do { prefix = chars[...] + chars[...] } while (existingPrefixes.has(prefix))\<close>, for a
  prefix of \<open>n\<close> letters. The loop has no bound: where it does not end the value is \<open>None\<close>.
\<close>

partial_function (option) sampleUntilFree ::
  "nat \<Rightarrow> (nat \<Rightarrow> nat) \<Rightarrow> string list \<Rightarrow> nat \<Rightarrow> (string \<times> nat) option" where
  "sampleUntilFree n rnd existing i =
     (if drawPrefix n rnd i \<in> set existing then sampleUntilFree n rnd existing (i + n)
      else Some (drawPrefix n rnd i, i + n))"

declare sampleUntilFree.simps [code]

text \<open>The scan of one root in generateUniquePrefix: every entry with an underscore in its
  name gives its first two characters.\<close>

definition collectPrefixes :: "fs \<Rightarrow> path \<Rightarrow> exn + string list" where
  "collectPrefixes fs dir =
     (if existsSync fs dir then
        (case readdirSync fs dir of
           Inl e \<Rightarrow> Inl e
         | Inr dirs \<Rightarrow> Inr (map (take 2) (filter (\<lambda>d. CHR ''_'' \<in> set d) dirs)))
      else Inr [])"

definition existingPrefixes :: "Config \<Rightarrow> fs \<Rightarrow> exn + string list" where
  "existingPrefixes config fs =
     (case collectPrefixes fs (join (vault config) [projectsRoot config]) of
        Inl e \<Rightarrow> Inl e
      | Inr fromProjects \<Rightarrow>
          (case collectPrefixes fs (join (vault config) [areasRoot config]) of
             Inl e \<Rightarrow> Inl e
           | Inr fromAreas \<Rightarrow> Inr (fromProjects @ fromAreas)))"

text \<open>generateUniquePrefix: the exception of a failed directory read, or the prefix with
  the number of draws made; \<open>None\<close> when the loop does not end.\<close>

definition generateUniquePrefix ::
  "Config \<Rightarrow> fs \<Rightarrow> (nat \<Rightarrow> nat) \<Rightarrow> nat \<Rightarrow> (exn + string \<times> nat) option" where
  "generateUniquePrefix config fs rnd i =
     (case existingPrefixes config fs of
        Inl e \<Rightarrow> Some (Inl e)
      | Inr existing \<Rightarrow> map_option Inr (sampleUntilFree 2 rnd existing i))"

text \<open>validatePrefixUnique (\<open>pfx\<close> is the source's \<^verbatim>\<open>prefix\<close>): no entry of either root starts with the prefix and an
  underscore.\<close>

definition prefixTaken :: "fs \<Rightarrow> path \<Rightarrow> string \<Rightarrow> exn + bool" where
  "prefixTaken fs dir pfx =
     (if existsSync fs dir then
        (case readdirSync fs dir of
           Inl e \<Rightarrow> Inl e
         | Inr dirs \<Rightarrow> Inr (list_ex (\<lambda>d. startsWith d (pfx @ ''_'')) dirs))
      else Inr False)"

definition validatePrefixUnique :: "string \<Rightarrow> Config \<Rightarrow> fs \<Rightarrow> exn + bool" where
  "validatePrefixUnique pfx config fs =
     (case prefixTaken fs (join (vault config) [projectsRoot config]) pfx of
        Inl e \<Rightarrow> Inl e
      | Inr True \<Rightarrow> Inr False
      | Inr False \<Rightarrow>
          (case prefixTaken fs (join (vault config) [areasRoot config]) pfx of
             Inl e \<Rightarrow> Inl e
           | Inr True \<Rightarrow> Inr False
           | Inr False \<Rightarrow> Inr True))"

text \<open>The prefix of an entity name, as the vault's naming convention has it: the part
  before the first underscore.\<close>

definition prefixOf :: "string \<Rightarrow> string" where
  "prefixOf entry = takeWhile (\<lambda>c. c \<noteq> CHR ''_'') entry"

definition isLowerLetter :: "char \<Rightarrow> bool" where
  "isLowerLetter c = (97 \<le> code c \<and> code c \<le> 122)"

section \<open>mark: moving a work item or a post to another status folder\<close>

definition validStatuses :: "string list" where
  "validStatuses = [''backlog'', ''active'', ''review'', ''done'']"

subsection \<open>Rewriting the status markers of the text\<close>

text \<open>A match of \<^verbatim>\<open>- status\/[^\n]+\<close> at the start of a text: the tag and at least one more
  character of the line.\<close>

definition tagAt :: "string \<Rightarrow> bool" where
  "tagAt s = (startsWith s ''- status/'' \<and> drop 9 s \<noteq> [] \<and> hd (drop 9 s) \<noteq> CHR ''\<newline>'')"

definition afterTag :: "string \<Rightarrow> string" where
  "afterTag s = dropWhile (\<lambda>c. c \<noteq> CHR ''\<newline>'') (drop 9 s)"

text \<open>\<^verbatim>\<open>content.replace(/- status\/[^\n]+/, replacement)\<close>: the first tag, up to the end of its
  line, is replaced.\<close>

fun replaceStatusTag :: "string \<Rightarrow> string \<Rightarrow> string" where
  "replaceStatusTag replacement [] = []"
| "replaceStatusTag replacement (c # cs) =
     (if tagAt (c # cs) then replacement @ afterTag (c # cs)
      else c # replaceStatusTag replacement cs)"

text \<open>\<^verbatim>\<open>content.replace(/\n\s*- status\/[^\n]+/, "")\<close>: the first line feed that is followed,
  after any white space, by a tag goes, with that white space and the tag's line. (The
  white space run is taken whole: a tag starts with a hyphen, which is not white space.)\<close>

fun removeStatusTag :: "string \<Rightarrow> string" where
  "removeStatusTag [] = []"
| "removeStatusTag (c # cs) =
     (if c = CHR ''\<newline>'' \<and> tagAt (dropWhile isSpace cs) then afterTag (dropWhile isSpace cs)
      else c # removeStatusTag cs)"

text \<open>\<^verbatim>\<open>content.replace(/^status: .+$/m, replacement)\<close>: the first line that starts with the
  field name and has at least one more character is replaced. A line starts at the start
  of the text and behind a line terminator; the dot matches up to the next one.\<close>

definition isLineTerminator :: "char \<Rightarrow> bool" where
  "isLineTerminator c = (code c \<in> {10, 13})"

definition fieldAt :: "string \<Rightarrow> bool" where
  "fieldAt s = (startsWith s ''status: '' \<and> drop 8 s \<noteq> [] \<and> \<not> isLineTerminator (hd (drop 8 s)))"

fun replaceStatusField :: "string \<Rightarrow> bool \<Rightarrow> string \<Rightarrow> string" where
  "replaceStatusField replacement atLineStart [] = []"
| "replaceStatusField replacement atLineStart (c # cs) =
     (if atLineStart \<and> fieldAt (c # cs)
      then replacement @ dropWhile (\<lambda>d. \<not> isLineTerminator d) (drop 8 (c # cs))
      else c # replaceStatusField replacement (isLineTerminator c) cs)"

text \<open>\<^verbatim>\<open>content.replace(/tags:\n([\s\S]*?)- status\/[^\n]+/, `tags:\n$1- status/${statusLower}`)\<close>:
  behind the first \<^verbatim>\<open>tags:\<close> line that has a tag somewhere after it, the first tag is
  replaced and the text between the two is kept. If the first \<^verbatim>\<open>tags:\<close> line has no tag
  after it, no later one has, and the text stays.\<close>

fun replaceTagUnderTags :: "string \<Rightarrow> string \<Rightarrow> string" where
  "replaceTagUnderTags replacement [] = []"
| "replaceTagUnderTags replacement (c # cs) =
     (if startsWith (c # cs) ''tags:\<newline>''
      then ''tags:\<newline>'' @ replaceStatusTag replacement (drop 6 (c # cs))
      else c # replaceTagUnderTags replacement cs)"

text \<open>\<^verbatim>\<open>name.replace(`${prefix}_`, "")\<close> with a string pattern: its first occurrence goes.\<close>

fun removeFirst :: "string \<Rightarrow> string \<Rightarrow> string" where
  "removeFirst pat [] = []"
| "removeFirst pat (c # cs) =
     (if startsWith (c # cs) pat then drop (length pat) (c # cs) else c # removeFirst pat cs)"

definition statusMap :: "string \<Rightarrow> string" where
  "statusMap statusLower =
     (if statusLower = ''backlog'' then ''Backlog''
      else if statusLower = ''active'' then ''Active''
      else if statusLower = ''review'' then ''Review''
      else ''Done'')"

definition postContent :: "string \<Rightarrow> string \<Rightarrow> string" where
  "postContent statusLower content =
     (if statusLower = ''done'' then removeStatusTag content
      else replaceStatusTag (''- status/'' @ statusLower) content)"

definition workContent :: "string \<Rightarrow> string \<Rightarrow> string" where
  "workContent statusLower content =
     (let content1 = replaceStatusField (''status: '' @ statusMap statusLower) True content
      in if statusLower = ''done'' then removeStatusTag content1
         else replaceTagUnderTags (''- status/'' @ statusLower) content1)"

subsection \<open>Finding the item\<close>

text \<open>
  The loop over the four status folders of one container (lines 396 to 408, 486 to 498
  and 512 to 524), with its \<^verbatim>\<open>break\<close>: the first
  folder that exists and lists a name starting with the item code and an underscore gives
  the folder and the name.
\<close>

fun scanStatus :: "fs \<Rightarrow> path \<Rightarrow> string \<Rightarrow> string list \<Rightarrow> exn + (path \<times> string) option" where
  "scanStatus fs base itemPrefix [] = Inr None"
| "scanStatus fs base itemPrefix (stat # stats) =
     (if existsSync fs (join base [stat]) then
        (case readdirSync fs (join base [stat]) of
           Inl e \<Rightarrow> Inl e
         | Inr listing \<Rightarrow>
             (case find (\<lambda>f. startsWith f (itemPrefix @ ''_'')) listing of
                Some found \<Rightarrow> Inr (Some (join base [stat], found))
              | None \<Rightarrow> scanStatus fs base itemPrefix stats))
      else scanStatus fs base itemPrefix stats)"

text \<open>
  The search of one root (lines 390 to 410 of markPost, lines 479 to 501 and 505 to 527 of
  markWork): the first entry that starts with the container prefix, and in it
  (for work items in its \<^verbatim>\<open>work\<close> folder, \<open>sub = [''work'']\<close>; for posts in the area itself,
  \<open>sub = []\<close>) the scan of the status folders. The result is \<^verbatim>\<open>sourceFolder\<close>, \<^verbatim>\<open>fileName\<close> and
  \<^verbatim>\<open>sourcePath\<close>. markWork has this block twice, for the projects root and for the areas
  root, and scans only if the \<^verbatim>\<open>work\<close> folder exists; markPost has it once, for the areas
  root, and scans the area without such a check.
\<close>

definition searchRoot ::
  "Config \<Rightarrow> fs \<Rightarrow> string \<Rightarrow> string list \<Rightarrow> string \<Rightarrow> string \<Rightarrow> exn + (string \<times> string \<times> path) option" where
  "searchRoot config fs root sub folderPrefix itemPrefix =
     (if existsSync fs (join (vault config) [root]) then
        (case readdirSync fs (join (vault config) [root]) of
           Inl e \<Rightarrow> Inl e
         | Inr dirs \<Rightarrow>
             (case find (\<lambda>d. startsWith d (folderPrefix @ ''_'')) dirs of
                None \<Rightarrow> Inr None
              | Some dir \<Rightarrow>
                  (if sub = [] \<or> existsSync fs (join (vault config) ([root, dir] @ sub)) then
                     (case scanStatus fs (join (vault config) ([root, dir] @ sub)) itemPrefix validStatuses of
                        Inl e \<Rightarrow> Inl e
                      | Inr None \<Rightarrow> Inr None
                      | Inr (Some (statusPath, found)) \<Rightarrow>
                          Inr (Some (joinStr [root, dir], found, join statusPath [found])))
                   else Inr None)))
      else Inr None)"

text \<open>
  The second half of both functions (lines 419 to 455 and 537 to 585): the target name (the item code goes when the status
  is \<^verbatim>\<open>done\<close>), the target path, \<^verbatim>\<open>ensureDir\<close>, the read of the source, the rewritten text,
  and then, inside \<^verbatim>\<open>try\<close>, the write of the target and the unlink of the source; the
  \<^verbatim>\<open>catch\<close> ends the process with exit code 1.
\<close>

definition moveItem ::
  "Config \<Rightarrow> fs \<Rightarrow> string list \<Rightarrow> (string \<Rightarrow> string) \<Rightarrow> string \<Rightarrow> string \<Rightarrow>
   string \<times> string \<times> path \<Rightarrow> outcome \<times> fs" where
  "moveItem config fs sub rewrite itemPrefix statusLower src =
     (case src of (sourceFolder, fileName, sourcePath) \<Rightarrow>
        (let targetFileName =
               (if statusLower = ''done'' then removeFirst (itemPrefix @ ''_'') fileName else fileName);
             targetPath = join (vault config) ([sourceFolder] @ sub @ [statusLower, targetFileName])
         in case ensureDir fs (dirname targetPath) of
              Inl e \<Rightarrow> (Uncaught e, fs)
            | Inr fs1 \<Rightarrow>
                (case readFileSync fs1 sourcePath of
                   Inl e \<Rightarrow> (Uncaught e, fs1)
                 | Inr content \<Rightarrow>
                     (case writeFileSync fs1 targetPath (rewrite content) of
                        Inl e \<Rightarrow> (Exit1, fs1)
                      | Inr fs2 \<Rightarrow>
                          (case unlinkSync fs2 sourcePath of
                             Inl e \<Rightarrow> (Exit1, fs2)
                           | Inr fs3 \<Rightarrow> (Returned, fs3))))))"

definition markPost :: "Config \<Rightarrow> fs \<Rightarrow> string \<Rightarrow> string \<Rightarrow> string \<Rightarrow> outcome \<times> fs" where
  "markPost config fs areaPrefix postPrefix status =
     (if toLowerCase status \<notin> set validStatuses then (Exit1, fs)
      else
        (case searchRoot config fs (areasRoot config) [] areaPrefix postPrefix of
           Inl e \<Rightarrow> (Uncaught e, fs)
         | Inr None \<Rightarrow> (Exit1, fs)
         | Inr (Some src) \<Rightarrow>
             moveItem config fs [] (postContent (toLowerCase status)) postPrefix (toLowerCase status) src))"

definition markWork :: "Config \<Rightarrow> fs \<Rightarrow> string \<Rightarrow> string \<Rightarrow> string \<Rightarrow> outcome \<times> fs" where
  "markWork config fs folderPrefix itemPrefix status =
     (if toLowerCase status \<notin> set validStatuses then (Exit1, fs)
      else
        (case searchRoot config fs (projectsRoot config) [''work''] folderPrefix itemPrefix of
           Inl e \<Rightarrow> (Uncaught e, fs)
         | Inr (Some src) \<Rightarrow>
             moveItem config fs [''work''] (workContent (toLowerCase status)) itemPrefix
               (toLowerCase status) src
         | Inr None \<Rightarrow>
             (case searchRoot config fs (areasRoot config) [''work''] folderPrefix itemPrefix of
                Inl e \<Rightarrow> (Uncaught e, fs)
              | Inr None \<Rightarrow> (Exit1, fs)
              | Inr (Some src) \<Rightarrow>
                  moveItem config fs [''work''] (workContent (toLowerCase status)) itemPrefix
                    (toLowerCase status) src)))"

text \<open>The action of the \<^verbatim>\<open>mark\<close> command: the type and the lengths of the two codes are
  checked, then markWork or markPost runs.\<close>

definition markCommand ::
  "Config \<Rightarrow> fs \<Rightarrow> string \<Rightarrow> string \<Rightarrow> string \<Rightarrow> string \<Rightarrow> outcome \<times> fs" where
  "markCommand config fs type pfx item status =
     (if type \<noteq> ''work'' \<and> type \<noteq> ''post'' then (Exit1, fs)
      else if length pfx \<noteq> 2 then (Exit1, fs)
      else if type = ''work'' then
        (if length item \<noteq> 2 then (Exit1, fs) else markWork config fs pfx item status)
      else
        (if length item \<noteq> 3 then (Exit1, fs) else markPost config fs pfx item status))"

section \<open>new: creating an entity\<close>

text \<open>
  The options bag of the \<^verbatim>\<open>new\<close> command, \<open>optPrefix\<close> for \<^verbatim>\<open>options.prefix\<close> and so on; a field
  that was not given is \<open>None\<close>. createEntity reads \<^verbatim>\<open>options.dependencies\<close>, the command
  line sets \<^verbatim>\<open>deps\<close>; \<^verbatim>\<open>folder\<close> is set by the command's action only. A string option counts
  as given (is truthy) when it is there and not empty.
\<close>

record Options =
  optPrefix :: "string option"
  optItem :: "string option"
  optArea :: "string option"
  optDeps :: "string option"
  optType :: "string option"
  optContent :: "string option"
  optSolo :: bool
  optAtRoot :: bool
  optFolder :: "string option"
  optDependencies :: "string option"

definition given :: "string option \<Rightarrow> bool" where
  "given v = (case v of None \<Rightarrow> False | Some s \<Rightarrow> s \<noteq> [])"

text \<open>\<^verbatim>\<open>v || d\<close>\<close>

definition orElse :: "string option \<Rightarrow> string \<Rightarrow> string" where
  "orElse v d = (case v of None \<Rightarrow> d | Some s \<Rightarrow> if s \<noteq> [] then s else d)"

subsection \<open>createEntity, up to the variables\<close>

definition actualTypeOf :: "string \<Rightarrow> Options \<Rightarrow> string" where
  "actualTypeOf type options =
     (let actualType1 = (if type = ''episode'' \<and> optSolo options then ''solo_episode'' else type);
          actualType2 = (if type = ''scratch'' \<and> optAtRoot options then ''scratch_root'' else actualType1)
      in if type = ''resource'' \<and> given (optPrefix options) then ''resource_folder'' else actualType2)"

text \<open>
  The prefix of a project or an area: generated when none is given, checked against both
  roots when one is given. The result is the variable \<^verbatim>\<open>prefix\<close>, or the way the process
  ends; \<open>None\<close> when the generation loop does not end.
\<close>

definition choosePrefix ::
  "Config \<Rightarrow> fs \<Rightarrow> (nat \<Rightarrow> nat) \<Rightarrow> string \<Rightarrow> Options \<Rightarrow> (outcome + string option) option" where
  "choosePrefix config fs rnd type options =
     (if type = ''project'' \<or> type = ''area'' then
        (if \<not> given (optPrefix options) then
           (case generateUniquePrefix config fs rnd 0 of
              None \<Rightarrow> None
            | Some (Inl e) \<Rightarrow> Some (Inl (Uncaught e))
            | Some (Inr (generated, _)) \<Rightarrow> Some (Inr (Some generated)))
         else
           (case validatePrefixUnique (orElse (optPrefix options) []) config fs of
              Inl e \<Rightarrow> Some (Inl (Uncaught e))
            | Inr False \<Rightarrow> Some (Inl Exit1)
            | Inr True \<Rightarrow> Some (Inr (optPrefix options))))
      else Some (Inr (optPrefix options)))"

text \<open>A file name matches \<^verbatim>\<open>/^([a-z]{n})_/\<close>; the loop over the four status folders collects
  the captured codes.\<close>

definition codeMatch :: "nat \<Rightarrow> string \<Rightarrow> bool" where
  "codeMatch n f = (n < length f \<and> list_all isLowerLetter (take n f) \<and> f ! n = CHR ''_'')"

fun collectCodes :: "nat \<Rightarrow> fs \<Rightarrow> path \<Rightarrow> string list \<Rightarrow> exn + string list" where
  "collectCodes n fs base [] = Inr []"
| "collectCodes n fs base (statusFolder # others) =
     (if existsSync fs (join base [statusFolder]) then
        (case readdirSync fs (join base [statusFolder]) of
           Inl e \<Rightarrow> Inl e
         | Inr listing \<Rightarrow>
             (case collectCodes n fs base others of
                Inl e \<Rightarrow> Inl e
              | Inr codes \<Rightarrow> Inr (map (take n) (filter (codeMatch n) listing) @ codes)))
      else collectCodes n fs base others)"

definition existingCodes :: "nat \<Rightarrow> fs \<Rightarrow> path \<Rightarrow> exn + string list" where
  "existingCodes n fs base =
     (if existsSync fs base then collectCodes n fs base validStatuses else Inr [])"

text \<open>The two-letter code of a work item, free among the work files of the folder that the
  action has put into \<^verbatim>\<open>options.folder\<close> (joining an undefined folder is a TypeError).\<close>

definition chooseWorkItemPrefix ::
  "Config \<Rightarrow> fs \<Rightarrow> (nat \<Rightarrow> nat) \<Rightarrow> string \<Rightarrow> Options \<Rightarrow> (outcome + string) option" where
  "chooseWorkItemPrefix config fs rnd type options =
     (if type = ''work'' then
        (case optFolder options of
           None \<Rightarrow> Some (Inl (Uncaught TypeError))
         | Some folder \<Rightarrow>
             (case existingCodes 2 fs (join (join (vault config) [folder]) [''work'']) of
                Inl e \<Rightarrow> Some (Inl (Uncaught e))
              | Inr existing \<Rightarrow>
                  map_option (\<lambda>r. Inr (fst r)) (sampleUntilFree 2 rnd existing 0)))
      else Some (Inr []))"

text \<open>The area of a post, resolved from its prefix (fatal when the areas root exists and
  has no such area), and the post's three-letter code, free among the post files of that
  area. The result is \<^verbatim>\<open>postPrefix\<close> and \<^verbatim>\<open>resolvedArea\<close>.\<close>

definition choosePostPrefix ::
  "Config \<Rightarrow> fs \<Rightarrow> (nat \<Rightarrow> nat) \<Rightarrow> string \<Rightarrow> Options \<Rightarrow> (outcome + string \<times> string) option" where
  "choosePostPrefix config fs rnd type options =
     (if type = ''post'' then
        (case (if existsSync fs (join (vault config) [areasRoot config]) then
                 (case readdirSync fs (join (vault config) [areasRoot config]) of
                    Inl e \<Rightarrow> Inl (Uncaught e)
                  | Inr areaDirs \<Rightarrow>
                      (case find (\<lambda>d. startsWith d (orElse (optArea options) ''pb'' @ ''_'')) areaDirs of
                         Some areaDir \<Rightarrow> Inr areaDir
                       | None \<Rightarrow> Inl Exit1))
               else Inr (orElse (optArea options) ''pb_personal_blog'')) of
           Inl out \<Rightarrow> Some (Inl out)
         | Inr resolvedArea \<Rightarrow>
             (case existingCodes 3 fs (join (vault config) [areasRoot config, resolvedArea]) of
                Inl e \<Rightarrow> Some (Inl (Uncaught e))
              | Inr existing \<Rightarrow>
                  map_option (\<lambda>r. Inr (fst r, resolvedArea)) (sampleUntilFree 3 rnd existing 0)))
      else Some (Inr ([], orElse (optArea options) ''pb_personal_blog'')))"

definition buildVars ::
  "string \<Rightarrow> string \<Rightarrow> string \<Rightarrow> Options \<Rightarrow> string option \<Rightarrow> string \<Rightarrow> string \<Rightarrow> string \<Rightarrow>
   (string \<rightharpoonup> string)" where
  "buildVars type title date options pfx workItemPrefix postPrefix resolvedArea =
     map_of
      [(''title'', title),
       (''slug'', slugify title),
       (''date'', date),
       (''status'', if type = ''project'' then ''Planned'' else ''Active''),
       (''area'', if type = ''post'' then resolvedArea else orElse (optArea options) ''pb_personal_blog''),
       (''dependencies'', orElse (optDependencies options) ''none''),
       (''type'', orElse (optType options) ''task''),
       (''content'', orElse (optContent options) []),
       (''prefix'', if type = ''work'' then workItemPrefix
                    else if type = ''post'' then postPrefix else orElse pfx []),
       (''folder'', orElse (optFolder options) [])]"

text \<open>
  \<^verbatim>\<open>config.templates[actualType]\<close> reads a plain object, as \<^verbatim>\<open>vars[key]\<close> does: for a name that
  is no template of the configuration but names a member inherited from
  \<^verbatim>\<open>Object.prototype\<close> the result is that member, which passes the test \<^verbatim>\<open>!template\<close> and
  has none of the fields of a template.
\<close>

definition templateNamed :: "Config \<Rightarrow> string \<Rightarrow> EntityTemplate option" where
  "templateNamed config name =
     (case templates config name of
        Some tmpl \<Rightarrow> Some tmpl
      | None \<Rightarrow>
          (case inherited name of
             Some _ \<Rightarrow> Some \<lparr> folderPattern = None, filePath = None, files = None, template = None \<rparr>
           | None \<Rightarrow> None))"

text \<open>
  Lines 148 to 284 of createEntity: the template and the variables, or the way the process
  ends before anything is written; \<open>None\<close> when a sampling loop does not end. \<open>date\<close> is
  today's date, \<^verbatim>\<open>now.toISOString().split("T")[0]\<close>.
\<close>

definition prepareEntity ::
  "Config \<Rightarrow> fs \<Rightarrow> (nat \<Rightarrow> nat) \<Rightarrow> string \<Rightarrow> string \<Rightarrow> string \<Rightarrow> Options \<Rightarrow>
   (outcome + EntityTemplate \<times> (string \<rightharpoonup> string)) option" where
  "prepareEntity config fs rnd date type title options =
     (case templateNamed config (actualTypeOf type options) of
        None \<Rightarrow> Some (Inl Exit1)
      | Some tmpl \<Rightarrow>
          (case choosePrefix config fs rnd type options of
             None \<Rightarrow> None
           | Some (Inl out) \<Rightarrow> Some (Inl out)
           | Some (Inr pfx) \<Rightarrow>
               (case chooseWorkItemPrefix config fs rnd type options of
                  None \<Rightarrow> None
                | Some (Inl out) \<Rightarrow> Some (Inl out)
                | Some (Inr workItemPrefix) \<Rightarrow>
                    (case choosePostPrefix config fs rnd type options of
                       None \<Rightarrow> None
                     | Some (Inl out) \<Rightarrow> Some (Inl out)
                     | Some (Inr (postPrefix, resolvedArea)) \<Rightarrow>
                         Some (Inr (tmpl,
                           buildVars type title date options pfx workItemPrefix postPrefix
                             resolvedArea))))))"

subsection \<open>createEntity, the writing\<close>

text \<open>\<^verbatim>\<open>content = renderTemplate(tmpl, vars); content = content.replace("{{cursor}}", "")\<close>;
  a template that is not there makes the call a TypeError.\<close>

definition renderContent :: "string \<Rightarrow> (string \<rightharpoonup> string) \<Rightarrow> string" where
  "renderContent tmpl vars = removeFirst ''{{cursor}}'' (renderTemplate tmpl vars)"

text \<open>The single-file branch (lines 287 to 308).\<close>

definition writeSingle ::
  "Config \<Rightarrow> fs \<Rightarrow> EntityTemplate \<Rightarrow> (string \<rightharpoonup> string) \<Rightarrow> string \<Rightarrow> outcome \<times> fs" where
  "writeSingle config fs tmpl vars pattern =
     (if existsSync fs (join (vault config) [renderTemplate pattern vars]) then (Exit1, fs)
      else
        (case ensureDir fs (dirname (join (vault config) [renderTemplate pattern vars])) of
           Inl e \<Rightarrow> (Uncaught e, fs)
         | Inr fs1 \<Rightarrow>
             (case template tmpl of
                None \<Rightarrow> (Uncaught TypeError, fs1)
              | Some text \<Rightarrow>
                  (case writeFileSync fs1 (join (vault config) [renderTemplate pattern vars])
                          (renderContent text vars) of
                     Inl e \<Rightarrow> (Uncaught e, fs1)
                   | Inr fs2 \<Rightarrow> (Returned, fs2)))))"

text \<open>The loop over the files of a multi-file template (lines 323 to 332); files written
  before a failure stay.\<close>

fun writeFiles :: "fs \<Rightarrow> path \<Rightarrow> (string \<rightharpoonup> string) \<Rightarrow> TemplateFile list \<Rightarrow> outcome \<times> fs" where
  "writeFiles fs folderPath vars [] = (Returned, fs)"
| "writeFiles fs folderPath vars (fileDef # others) =
     (case ensureDir fs (dirname (join folderPath [entryName fileDef])) of
        Inl e \<Rightarrow> (Uncaught e, fs)
      | Inr fs1 \<Rightarrow>
          (case writeFileSync fs1 (join folderPath [entryName fileDef])
                  (renderContent (entryTemplate fileDef) vars) of
             Inl e \<Rightarrow> (Uncaught e, fs1)
           | Inr fs2 \<Rightarrow> writeFiles fs2 folderPath vars others))"

definition writeFolder ::
  "Config \<Rightarrow> fs \<Rightarrow> EntityTemplate \<Rightarrow> (string \<rightharpoonup> string) \<Rightarrow> outcome \<times> fs" where
  "writeFolder config fs tmpl vars =
     (case folderPattern tmpl of
        None \<Rightarrow> (Uncaught TypeError, fs)
      | Some pattern \<Rightarrow>
          (if existsSync fs (join (vault config) [renderTemplate pattern vars]) then (Exit1, fs)
           else
             (case ensureDir fs (join (vault config) [renderTemplate pattern vars]) of
                Inl e \<Rightarrow> (Uncaught e, fs)
              | Inr fs1 \<Rightarrow>
                  (case files tmpl of
                     None \<Rightarrow> (Uncaught TypeError, fs1)
                   | Some fileDefs \<Rightarrow>
                       writeFiles fs1 (join (vault config) [renderTemplate pattern vars]) vars
                         fileDefs))))"

definition writeEntity ::
  "Config \<Rightarrow> fs \<Rightarrow> EntityTemplate \<Rightarrow> (string \<rightharpoonup> string) \<Rightarrow> outcome \<times> fs" where
  "writeEntity config fs tmpl vars =
     (if given (filePath tmpl) then writeSingle config fs tmpl vars (orElse (filePath tmpl) [])
      else writeFolder config fs tmpl vars)"

definition createEntity ::
  "Config \<Rightarrow> fs \<Rightarrow> (nat \<Rightarrow> nat) \<Rightarrow> string \<Rightarrow> string \<Rightarrow> string \<Rightarrow> Options \<Rightarrow> (outcome \<times> fs) option" where
  "createEntity config fs rnd date type title options =
     (case prepareEntity config fs rnd date type title options of
        None \<Rightarrow> None
      | Some (Inl out) \<Rightarrow> Some (out, fs)
      | Some (Inr (tmpl, vars)) \<Rightarrow> Some (writeEntity config fs tmpl vars))"

subsection \<open>The action of the new command\<close>

text \<open>The first entry of a root that starts with the prefix and an underscore, as the
  string \<^verbatim>\<open>join(root, entry)\<close>; the projects root is asked first, then the areas root.\<close>

definition firstWithPrefix :: "fs \<Rightarrow> path \<Rightarrow> string \<Rightarrow> exn + string option" where
  "firstWithPrefix fs dir pfx =
     (if existsSync fs dir then
        (case readdirSync fs dir of
           Inl e \<Rightarrow> Inl e
         | Inr dirs \<Rightarrow> Inr (find (\<lambda>d. startsWith d (pfx @ ''_'')) dirs))
      else Inr None)"

definition findFolder :: "Config \<Rightarrow> fs \<Rightarrow> string \<Rightarrow> exn + string option" where
  "findFolder config fs pfx =
     (case firstWithPrefix fs (join (vault config) [projectsRoot config]) pfx of
        Inl e \<Rightarrow> Inl e
      | Inr (Some projectDir) \<Rightarrow> Inr (Some (joinStr [projectsRoot config, projectDir]))
      | Inr None \<Rightarrow>
          (case firstWithPrefix fs (join (vault config) [areasRoot config]) pfx of
             Inl e \<Rightarrow> Inl e
           | Inr (Some areaDir) \<Rightarrow> Inr (Some (joinStr [areasRoot config, areaDir]))
           | Inr None \<Rightarrow> Inr None))"

text \<open>
  The resource with a prefix whose folder exists (lines 863 to 911): one new file in that
  folder, written by the action itself with the text of the \<^verbatim>\<open>resource\<close> template.
\<close>

definition createInResourceFolder ::
  "Config \<Rightarrow> fs \<Rightarrow> string \<Rightarrow> string \<Rightarrow> string \<Rightarrow> string \<Rightarrow> Options \<Rightarrow> outcome \<times> fs" where
  "createInResourceFolder config fs date resourceDir actualTitle pfx opts =
     (if existsSync fs
           (join (vault config) [resourcesRoot config, resourceDir, slugify actualTitle @ ''.md''])
      then (Exit1, fs)
      else
        (case ensureDir fs
                (dirname (join (vault config)
                   [resourcesRoot config, resourceDir, slugify actualTitle @ ''.md''])) of
           Inl e \<Rightarrow> (Uncaught e, fs)
         | Inr fs1 \<Rightarrow>
             (case templates config ''resource'' of
                None \<Rightarrow> (Uncaught TypeError, fs1)
              | Some tmpl \<Rightarrow>
                  (case template tmpl of
                     None \<Rightarrow> (Uncaught TypeError, fs1)
                   | Some text \<Rightarrow>
                       (case writeFileSync fs1
                               (join (vault config)
                                  [resourcesRoot config, resourceDir, slugify actualTitle @ ''.md''])
                               (renderContent text
                                  (map_of
                                    [(''title'', actualTitle),
                                     (''slug'', slugify actualTitle),
                                     (''date'', date),
                                     (''status'', ''Active''),
                                     (''area'', orElse (optArea opts) ''pb_personal_blog''),
                                     (''dependencies'', orElse (optDependencies opts) ''none''),
                                     (''type'', orElse (optType opts) ''task''),
                                     (''content'', orElse (optContent opts) []),
                                     (''prefix'', pfx),
                                     (''folder'', orElse (optFolder opts) [])])) of
                          Inl e \<Rightarrow> (Uncaught e, fs1)
                        | Inr fs2 \<Rightarrow> (Returned, fs2))))))"

definition newCommand ::
  "Config \<Rightarrow> fs \<Rightarrow> (nat \<Rightarrow> nat) \<Rightarrow> string \<Rightarrow> string \<Rightarrow> string option \<Rightarrow> Options \<Rightarrow>
   (outcome \<times> fs) option" where
  "newCommand config fs rnd date type title opts =
     (let actualTitle = orElse title ''Untitled'' in
      if type = ''work'' then
        (if \<not> given (optPrefix opts) then Some (Exit1, fs)
         else if length (orElse (optPrefix opts) []) \<noteq> 2 then Some (Exit1, fs)
         else
           (case findFolder config fs (orElse (optPrefix opts) []) of
              Inl e \<Rightarrow> Some (Uncaught e, fs)
            | Inr None \<Rightarrow> Some (Exit1, fs)
            | Inr (Some folder) \<Rightarrow>
                createEntity config fs rnd date type actualTitle (opts\<lparr>optFolder := Some folder\<rparr>)))
      else if type = ''scratch'' \<and> \<not> given (optPrefix opts) \<and> \<not> optAtRoot opts then Some (Exit1, fs)
      else if type = ''scratch'' \<and> given (optPrefix opts) then
        (if length (orElse (optPrefix opts) []) \<noteq> 2 then Some (Exit1, fs)
         else
           (case findFolder config fs (orElse (optPrefix opts) []) of
              Inl e \<Rightarrow> Some (Uncaught e, fs)
            | Inr None \<Rightarrow> Some (Exit1, fs)
            | Inr (Some folder) \<Rightarrow>
                createEntity config fs rnd date type actualTitle (opts\<lparr>optFolder := Some folder\<rparr>)))
      else if type = ''resource'' \<and> given (optPrefix opts) then
        (if length (orElse (optPrefix opts) []) \<noteq> 2 then Some (Exit1, fs)
         else
           (case firstWithPrefix fs (join (vault config) [resourcesRoot config])
                   (orElse (optPrefix opts) []) of
              Inl e \<Rightarrow> Some (Uncaught e, fs)
            | Inr (Some resourceDir) \<Rightarrow>
                Some (createInResourceFolder config fs date resourceDir actualTitle
                        (orElse (optPrefix opts) []) opts)
            | Inr None \<Rightarrow> createEntity config fs rnd date ''resource_folder'' actualTitle opts))
      else if type = ''recipe'' then
        (if \<not> given (optPrefix opts) then
           createEntity config fs rnd date type actualTitle (opts\<lparr>optPrefix := Some ''re''\<rparr>)
         else if length (orElse (optPrefix opts) []) \<noteq> 2 then Some (Exit1, fs)
         else createEntity config fs rnd date type actualTitle opts)
      else createEntity config fs rnd date type actualTitle opts)"

section \<open>The premises of the relocation property\<close>



subsection \<open>The status markers of a text, by position\<close>


section \<open>Example vaults\<close>

text \<open>A configuration with one single-file template and one multi-file template, and a
  small vault: a project \<open>ab_site\<close> with one work item in \<^verbatim>\<open>work/active\<close>, and an area
  \<open>cd_blog\<close>.\<close>

definition demoTemplates :: "string \<rightharpoonup> EntityTemplate" where
  "demoTemplates = map_of
     [(''resource'',
        \<lparr> folderPattern = None, filePath = Some ''02_resources/{{slug}}.md'', files = None,
          template = Some ''# {{title}}\<newline>\<newline>{{cursor}}\<newline>'' \<rparr>),
      (''project'',
        \<lparr> folderPattern = Some ''00_projects/{{prefix}}_{{slug}}'', filePath = None,
          files = Some [\<lparr> entryName = ''index.md'', entryTemplate = ''# {{title}}\<newline>{{cursor}}'' \<rparr>],
          template = None \<rparr>)]"

definition demoConfig :: Config where
  "demoConfig =
     \<lparr> vaultPath = ''/vault'', areasRoot = ''01_areas'', projectsRoot = ''00_projects'',
       resourcesRoot = ''02_resources'', templates = demoTemplates \<rparr>"

definition demoTask :: string where
  "demoTask =
     ''---\<newline>status: Active\<newline>tags:\<newline>  - type/work\<newline>  - status/active\<newline>---\<newline># Task\<newline>''"

definition demoVault :: fs where
  "demoVault =
     [([''vault''], Dir),
      ([''vault'', ''00_projects''], Dir),
      ([''vault'', ''00_projects'', ''ab_site''], Dir),
      ([''vault'', ''00_projects'', ''ab_site'', ''work''], Dir),
      ([''vault'', ''00_projects'', ''ab_site'', ''work'', ''active''], Dir),
      ([''vault'', ''00_projects'', ''ab_site'', ''work'', ''active'', ''xy_task.md''], File demoTask),
      ([''vault'', ''01_areas''], Dir),
      ([''vault'', ''01_areas'', ''cd_blog''], Dir)]"

definition noOptions :: Options where
  "noOptions =
     \<lparr> optPrefix = None, optItem = None, optArea = None, optDeps = None, optType = None,
       optContent = None, optSolo = False, optAtRoot = False, optFolder = None,
       optDependencies = None \<rparr>"

text \<open>A random source whose \<open>k\<close>-th draw is \<open>k\<close>: the pairs ab, cd, ef and so on.\<close>

definition countingDraws :: "nat \<Rightarrow> nat" where
  "countingDraws k = k"

text \<open>A saturated vault: for every one of the 676 pairs of letters the projects root holds
  a folder with that prefix.\<close>

definition allPairs :: "string list" where
  "allPairs = concat (map (\<lambda>a. map (\<lambda>b. [a, b]) chars) chars)"

definition saturatedVault :: fs where
  "saturatedVault =
     [([''vault''], Dir), ([''vault'', ''00_projects''], Dir)]
     @ map (\<lambda>p. ([''vault'', ''00_projects'', p @ ''_x''], Dir)) allPairs"







text \<open>The small vault after \<^verbatim>\<open>new resource "X"\<close>, and with a resource folder \<open>ab_refs\<close> that
  holds a note \<open>x.md\<close>.\<close>

definition resourceVault :: fs where
  "resourceVault =
     demoVault @
     [([''vault'', ''02_resources''], Dir),
      ([''vault'', ''02_resources'', ''x.md''], File ''# X\<newline>\<newline>\<newline>'')]"

definition folderVault :: fs where
  "folderVault =
     demoVault @
     [([''vault'', ''02_resources''], Dir),
      ([''vault'', ''02_resources'', ''ab_refs''], Dir),
      ([''vault'', ''02_resources'', ''ab_refs'', ''x.md''], File ''# X'')]"

fun semiSlug :: "string \<Rightarrow> bool" where
  "semiSlug [] = True"
| "semiSlug (c # cs) =
     ((isSlugChar c \<or> (c = CHR ''-'' \<and> (cs = [] \<or> isSlugChar (hd cs)))) \<and> semiSlug cs)"

fun slugForm :: "string \<Rightarrow> bool" where
  "slugForm [] = True"
| "slugForm (c # cs) =
     ((isSlugChar c \<or> (c = CHR ''-'' \<and> cs \<noteq> [] \<and> isSlugChar (hd cs))) \<and> slugForm cs)"

definition headOk :: "string \<Rightarrow> bool" where
  "headOk s = (s = [] \<or> isSlugChar (hd s))"

section \<open>Properties of slugify\<close>

lemma dropWhileEnd_Nil [simp]: "dropWhileEnd P [] = []"
  by (simp add: dropWhileEnd_def)

lemma dropWhileEnd_Cons:
  "dropWhileEnd P (x # xs) =
     (if dropWhileEnd P xs = [] \<and> P x then [] else x # dropWhileEnd P xs)"
  by (auto simp: dropWhileEnd_def dropWhile_append dropWhile_eq_Nil_conv)

lemma hd_dropWhileEnd: "dropWhileEnd P xs \<noteq> [] \<Longrightarrow> hd (dropWhileEnd P xs) = hd xs"
  by (cases xs) (auto simp: dropWhileEnd_Cons split: if_splits)

lemma dropWhileEnd_id: "xs = [] \<or> \<not> P (last xs) \<Longrightarrow> dropWhileEnd P xs = xs"
  by (cases xs rule: rev_cases) (auto simp: dropWhileEnd_def)

lemma hyphen_not_slug [simp]: "\<not> isSlugChar CHR ''-''"
  by (simp add: isSlugChar_def code_def)

lemma slug_not_space: "isSlugChar c \<Longrightarrow> \<not> isSpace c"
  by (auto simp: isSlugChar_def isSpace_def)

lemma slug_lower: "isSlugChar c \<Longrightarrow> toLowerChar c = c"
  by (auto simp: isSlugChar_def toLowerChar_def)

lemma hyphen_lower [simp]: "toLowerChar CHR ''-'' = CHR ''-''"
  by (simp add: toLowerChar_def code_def)

lemma hyphen_not_space [simp]: "\<not> isSpace CHR ''-''"
  by (simp add: isSpace_def code_def)

lemma collapseRuns_Nil_iff [simp]: "collapseRuns s = [] \<longleftrightarrow> s = []"
  by (cases s) auto

lemma hd_collapseRuns: "s \<noteq> [] \<Longrightarrow> isSlugChar (hd s) \<Longrightarrow> hd (collapseRuns s) = hd s"
  by (cases s) auto

lemma dropWhile_nonslug_head:
  "dropWhile (\<lambda>d. \<not> isSlugChar d) cs = [] \<or> isSlugChar (hd (dropWhile (\<lambda>d. \<not> isSlugChar d) cs))"
  using hd_dropWhile[of "\<lambda>d. \<not> isSlugChar d" cs] by auto

lemma semiSlug_collapseRuns: "semiSlug (collapseRuns s)"
proof (induction s rule: collapseRuns.induct)
  case 1
  show ?case by simp
next
  case (2 c cs)
  show ?case
  proof (cases "isSlugChar c")
    case True
    with 2 show ?thesis by simp
  next
    case False
    let ?r = "dropWhile (\<lambda>d. \<not> isSlugChar d) cs"
    have "?r = [] \<or> isSlugChar (hd (collapseRuns ?r))"
    proof (cases "?r = []")
      case True then show ?thesis by simp
    next
      case ne: False
      with dropWhile_nonslug_head[of cs] have "isSlugChar (hd ?r)" by blast
      with hd_collapseRuns[OF ne] show ?thesis by simp
    qed
    with False 2 show ?thesis by simp
  qed
qed

lemma semiSlug_dropWhile: "semiSlug s \<Longrightarrow> semiSlug (dropWhile P s)"
  by (induction s) auto

lemma semiSlug_chars: "semiSlug s \<Longrightarrow> c \<in> set s \<Longrightarrow> isSlugChar c \<or> c = CHR ''-''"
  by (induction s) auto

lemma headOk_strip_leading:
  assumes "semiSlug s"
  shows "headOk (dropWhile (\<lambda>c. c = CHR ''-'') s)"
proof (cases "dropWhile (\<lambda>c. c = CHR ''-'') s = []")
  case True
  then show ?thesis by (simp add: headOk_def)
next
  case False
  let ?r = "dropWhile (\<lambda>c. c = CHR ''-'') s"
  have "hd ?r \<noteq> CHR ''-''" using hd_dropWhile[OF False] by simp
  moreover have "hd ?r \<in> set s" using False by (meson hd_in_set set_dropWhileD)
  ultimately show ?thesis using semiSlug_chars[OF assms] by (auto simp: headOk_def)
qed

lemma slugForm_dropWhileEnd:
  "semiSlug s \<Longrightarrow> slugForm (dropWhileEnd (\<lambda>c. c = CHR ''-'') s)"
proof (induction s)
  case Nil
  show ?case by simp
next
  case (Cons c cs)
  let ?r = "dropWhileEnd (\<lambda>c. c = CHR ''-'') cs"
  have ih: "slugForm ?r" using Cons by simp
  show ?case
  proof (cases "?r = [] \<and> c = CHR ''-''")
    case True
    then show ?thesis by (simp add: dropWhileEnd_Cons)
  next
    case False
    have "isSlugChar c \<or> (c = CHR ''-'' \<and> ?r \<noteq> [] \<and> isSlugChar (hd ?r))"
    proof (cases "isSlugChar c")
      case True then show ?thesis by simp
    next
      case nslug: False
      with Cons.prems have c: "c = CHR ''-''" and "cs = [] \<or> isSlugChar (hd cs)" by auto
      moreover from False c have ne: "?r \<noteq> []" by simp
      moreover have "cs \<noteq> []" using ne by auto
      ultimately show ?thesis using hd_dropWhileEnd[OF ne] by auto
    qed
    with False ih show ?thesis by (auto simp: dropWhileEnd_Cons)
  qed
qed

lemma headOk_dropWhileEnd: "headOk s \<Longrightarrow> headOk (dropWhileEnd P s)"
  by (cases "dropWhileEnd P s = []") (auto simp: headOk_def hd_dropWhileEnd)

lemma slugify_form: "slugForm (slugify x) \<and> headOk (slugify x)"
  unfolding slugify_def stripHyphens_def
  by (intro conjI slugForm_dropWhileEnd semiSlug_dropWhile semiSlug_collapseRuns
      headOk_dropWhileEnd headOk_strip_leading)

lemma slugForm_chars: "slugForm s \<Longrightarrow> c \<in> set s \<Longrightarrow> isSlugChar c \<or> c = CHR ''-''"
  by (induction s) auto

lemma slugForm_last: "slugForm s \<Longrightarrow> s \<noteq> [] \<Longrightarrow> isSlugChar (last s)"
  by (induction s) auto

lemma slugForm_collapseRuns: "slugForm s \<Longrightarrow> collapseRuns s = s"
proof (induction s)
  case Nil show ?case by simp
next
  case (Cons c cs)
  show ?case
  proof (cases "isSlugChar c")
    case True with Cons show ?thesis by simp
  next
    case False
    with Cons.prems have "cs \<noteq> []" "isSlugChar (hd cs)" by auto
    then have "dropWhile (\<lambda>d. \<not> isSlugChar d) cs = cs" by (cases cs) auto
    with False Cons show ?thesis by auto
  qed
qed

lemma slugForm_lower: "slugForm s \<Longrightarrow> toLowerCase s = s"
proof -
  assume a: "slugForm s"
  have "toLowerChar c = c" if "c \<in> set s" for c
    using slugForm_chars[OF a that] slug_lower by auto
  then show ?thesis unfolding toLowerCase_def by (simp add: map_idI)
qed

lemma slugForm_trim: "slugForm s \<Longrightarrow> headOk s \<Longrightarrow> trim s = s"
proof -
  assume a: "slugForm s" "headOk s"
  have 1: "dropWhile isSpace s = s"
    using a(2) slug_not_space by (cases s) (auto simp: headOk_def)
  have 2: "dropWhileEnd isSpace s = s"
    using slugForm_last[OF a(1)] slug_not_space by (intro dropWhileEnd_id) auto
  show ?thesis by (simp add: trim_def 1 2)
qed

lemma slugForm_strip: "slugForm s \<Longrightarrow> headOk s \<Longrightarrow> stripHyphens s = s"
proof -
  assume a: "slugForm s" "headOk s"
  have 1: "dropWhile (\<lambda>c. c = CHR ''-'') s = s"
    using a(2) by (cases s) (auto simp: headOk_def)
  have 2: "dropWhileEnd (\<lambda>c. c = CHR ''-'') s = s"
    using slugForm_last[OF a(1)] by (intro dropWhileEnd_id) auto
  show ?thesis by (simp add: stripHyphens_def 1 2)
qed

lemma slugForm_append: "slugForm (xs @ ys) \<Longrightarrow> slugForm ys"
  by (induction xs) auto

lemma slugForm_no_double: "slugForm s \<Longrightarrow> \<not> sublist ''--'' s"
proof
  assume a: "slugForm s" and "sublist ''--'' s"
  then obtain ps ss where "s = ps @ ''--'' @ ss" by (auto simp: sublist_def)
  with a have "slugForm (''--'' @ ss)" using slugForm_append by blast
  then show False by simp
qed

text \<open>
  Claim C8. slugify is idempotent, \<open>slugify (slugify x) = slugify x\<close> for every input \<open>x\<close>, and
  its output holds only lower-case ASCII letters, digits and hyphens, with no two hyphens in
  a row and no hyphen at the start or at the end.
\<close>

theorem slugify_idempotent_clean:
  "slugify (slugify x) = slugify x
   \<and> list_all (\<lambda>c. isSlugChar c \<or> c = CHR ''-'') (slugify x)
   \<and> \<not> sublist ''--'' (slugify x)
   \<and> \<not> prefix ''-'' (slugify x)
   \<and> \<not> suffix ''-'' (slugify x)"
proof -
  let ?y = "slugify x"
  have f: "slugForm ?y" and h: "headOk ?y" using slugify_form by auto
  have "slugify ?y = ?y"
    by (simp add: slugify_def[of ?y] slugForm_lower[OF f] slugForm_trim[OF f h]
        slugForm_collapseRuns[OF f] slugForm_strip[OF f h])
  moreover have "list_all (\<lambda>c. isSlugChar c \<or> c = CHR ''-'') ?y"
    using slugForm_chars[OF f] by (auto simp: list_all_iff)
  moreover have "\<not> sublist ''--'' ?y" by (rule slugForm_no_double[OF f])
  moreover have "\<not> prefix ''-'' ?y"
    using h by (auto simp: headOk_def prefix_def)
  moreover have "\<not> suffix ''-'' ?y"
    using slugForm_last[OF f] by (auto simp: suffix_def)
  ultimately show ?thesis by blast
qed

theorem slugify_idempotent_clean_witness:
  "slugify ''  My -- Website!  '' = ''my-website''
   \<and> slugify (slugify ''  My -- Website!  '') = slugify ''  My -- Website!  ''
   \<and> list_all (\<lambda>c. isSlugChar c \<or> c = CHR ''-'') (slugify ''  My -- Website!  '')
   \<and> \<not> sublist ''--'' (slugify ''  My -- Website!  '')
   \<and> \<not> prefix ''-'' (slugify ''  My -- Website!  '')
   \<and> \<not> suffix ''-'' (slugify ''  My -- Website!  '')"
proof -
  have "slugify ''  My -- Website!  '' = ''my-website''" by code_simp
  with slugify_idempotent_clean[of "''  My -- Website!  ''"] show ?thesis by simp
qed

section \<open>Properties of renderTemplate\<close>












lemma splitOn_plain: "sep \<notin> set s \<Longrightarrow> splitOn sep s = [s]"
  by (induction s) auto




















section \<open>Properties of generateUniquePrefix\<close>

lemma sampleUntilFree_result:
  assumes "sampleUntilFree n rnd existing i = Some r"
  shows "fst r \<notin> set existing \<and> (\<exists>k. fst r = drawPrefix n rnd (i + n * k))"
proof (rule sampleUntilFree.raw_induct
    [where P = "\<lambda>n rnd existing i r.
        fst r \<notin> set existing \<and> (\<exists>k. fst r = drawPrefix n rnd (i + n * k))",
      OF _ assms])
  fix f n rnd existing i r
  assume ih: "\<And>rnd existing i b y. f rnd existing i b = Some y \<Longrightarrow>
      fst y \<notin> set i \<and> (\<exists>k. fst y = drawPrefix rnd existing (b + rnd * k))"
    and step: "(if drawPrefix n rnd i \<in> set existing then f n rnd existing (i + n)
      else Some (drawPrefix n rnd i, i + n)) = Some r"
  show "fst r \<notin> set existing \<and> (\<exists>k. fst r = drawPrefix n rnd (i + n * k))"
  proof (cases "drawPrefix n rnd i \<in> set existing")
    case True
    with step have "f n rnd existing (i + n) = Some r" by simp
    from ih[OF this] obtain k where "fst r \<notin> set existing"
      and "fst r = drawPrefix n rnd (i + n + n * k)" by blast
    then have "fst r = drawPrefix n rnd (i + n * Suc k)" by (simp add: algebra_simps)
    with \<open>fst r \<notin> set existing\<close> show ?thesis by blast
  next
    case False
    with step have "r = (drawPrefix n rnd i, i + n)" by simp
    with False have "fst r \<notin> set existing" "fst r = drawPrefix n rnd (i + n * 0)" by simp_all
    then show ?thesis by blast
  qed
qed

lemma sampleUntilFree_finds:
  "drawPrefix n rnd (i + n * k) \<notin> set existing \<Longrightarrow>
   \<exists>r. sampleUntilFree n rnd existing i = Some r"
proof (induction k arbitrary: i)
  case 0
  then show ?case by (subst sampleUntilFree.simps) simp
next
  case (Suc k)
  show ?case
  proof (cases "drawPrefix n rnd i \<in> set existing")
    case True
    have "drawPrefix n rnd ((i + n) + n * k) \<notin> set existing"
      using Suc.prems by (simp add: algebra_simps)
    from Suc.IH[OF this] True show ?thesis by (subst sampleUntilFree.simps) simp
  next
    case False
    then show ?thesis by (subst sampleUntilFree.simps) simp
  qed
qed

lemma sampleUntilFree_never:
  assumes "\<And>k. drawPrefix n rnd k \<in> set existing"
  shows "sampleUntilFree n rnd existing i = None"
proof (cases "sampleUntilFree n rnd existing i")
  case None then show ?thesis .
next
  case (Some r)
  from sampleUntilFree_result[OF Some] assms show ?thesis by auto
qed

lemma drawPrefix_two: "drawPrefix 2 rnd k = [letter (rnd k), letter (rnd (Suc k))]"
  by (simp add: drawPrefix_def numeral_2_eq_2)

lemma letter_in_chars: "letter d \<in> set chars"
proof -
  have "length chars = 26" by (simp add: chars_def)
  then have "d mod length chars < length chars" by simp
  then show ?thesis unfolding letter_def by (rule nth_mem)
qed

lemma chars_lower: "c \<in> set chars \<Longrightarrow> isLowerLetter c"
  by (auto simp: chars_def isLowerLetter_def code_def)

lemma letter_lower: "isLowerLetter (letter d)"
  by (rule chars_lower[OF letter_in_chars])

lemma readdirSync_exists: "readdirSync fs p = Inr names \<Longrightarrow> existsSync fs p"
  by (auto simp: readdirSync_def existsSync_def split: option.splits node.splits)

lemma collectPrefixes_member:
  assumes "readdirSync fs dir = Inr names" "d \<in> set names" "CHR ''_'' \<in> set d"
  shows "\<exists>ps. collectPrefixes fs dir = Inr ps \<and> take 2 d \<in> set ps"
  using assms readdirSync_exists[OF assms(1)] by (auto simp: collectPrefixes_def)

lemma takeWhile_is_take: "takeWhile P xs = take (length (takeWhile P xs)) xs"
  by (induction xs) auto

text \<open>
  Claim C4. Whenever generateUniquePrefix returns a prefix, it is two lower-case letters
  and differs from the prefix (the part before the first underscore) of every entry, named
  with an underscore, that the projects root or the areas root lists at the scan: the
  check runs over both pools.
\<close>

theorem generateUniquePrefix_unique:
  assumes gen: "generateUniquePrefix config fs rnd i = Some (Inr (p, j))"
    and root: "root = projectsRoot config \<or> root = areasRoot config"
    and dir: "readdirSync fs (join (vault config) [root]) = Inr names"
    and d: "d \<in> set names" "CHR ''_'' \<in> set d"
  shows "length p = 2 \<and> list_all isLowerLetter p \<and> prefixOf d \<noteq> p"
proof -
  from gen obtain existing where ex: "existingPrefixes config fs = Inr existing"
    and s: "sampleUntilFree 2 rnd existing i = Some (p, j)"
    by (auto simp: generateUniquePrefix_def split: sum.splits)
  from collectPrefixes_member[OF dir d] obtain ps
    where ps: "collectPrefixes fs (join (vault config) [root]) = Inr ps" "take 2 d \<in> set ps"
    by blast
  have mem: "take 2 d \<in> set existing"
    using ex ps root by (auto simp: existingPrefixes_def split: sum.splits)
  from sampleUntilFree_result[OF s] obtain k
    where free: "p \<notin> set existing" and p: "p = drawPrefix 2 rnd (i + 2 * k)" by auto
  have len: "length p = 2" and low: "list_all isLowerLetter p"
    using p by (simp_all add: drawPrefix_two letter_lower)
  have "prefixOf d \<noteq> p"
  proof
    assume e: "prefixOf d = p"
    have "take 2 d = p"
      using takeWhile_is_take[of "\<lambda>c. c \<noteq> CHR ''_''" d] e len by (simp add: prefixOf_def)
    with mem free show False by simp
  qed
  with len low show ?thesis by simp
qed

lemma demo_generate:
  "generateUniquePrefix demoConfig demoVault countingDraws 0 = Some (Inr (''ef'', 6))"
  by code_simp

lemma demo_areas: "readdirSync demoVault (join (vault demoConfig) [''01_areas'']) = Inr [''cd_blog'']"
  by code_simp

theorem generateUniquePrefix_unique_witness:
  "generateUniquePrefix demoConfig demoVault countingDraws 0 = Some (Inr (''ef'', 6))
   \<and> ''01_areas'' = areasRoot demoConfig
   \<and> readdirSync demoVault (join (vault demoConfig) [''01_areas'']) = Inr [''cd_blog'']
   \<and> ''cd_blog'' \<in> set [''cd_blog''] \<and> CHR ''_'' \<in> set ''cd_blog''
   \<and> length ''ef'' = 2 \<and> list_all isLowerLetter ''ef'' \<and> prefixOf ''cd_blog'' \<noteq> ''ef''"
proof -
  have r: "''01_areas'' = areasRoot demoConfig" by (simp add: demoConfig_def)
  from generateUniquePrefix_unique[OF demo_generate, of "''01_areas''" "[''cd_blog'']" "''cd_blog''"]
    r demo_areas demo_generate
  show ?thesis by simp
qed

lemma allPairs_iff: "p \<in> set allPairs \<longleftrightarrow> (\<exists>a\<in>set chars. \<exists>b\<in>set chars. p = [a, b])"
  by (auto simp: allPairs_def)

lemma drawPrefix_in_allPairs: "drawPrefix 2 rnd k \<in> set allPairs"
  unfolding allPairs_iff drawPrefix_two using letter_in_chars by blast

lemma saturated_projects:
  "readdirSync saturatedVault [''vault'', ''00_projects''] = Inr (map (\<lambda>p. p @ ''_x'') allPairs)"
proof -
  have l: "lookup saturatedVault [''vault'', ''00_projects''] = Some Dir"
    by (simp add: saturatedVault_def lookup_def)
  have f: "filter (\<lambda>e. fst e \<noteq> [] \<and> butlast (fst e) = [''vault'', ''00_projects''])
             (map (\<lambda>p. ([''vault'', ''00_projects'', p @ ''_x''], Dir)) allPairs)
           = map (\<lambda>p. ([''vault'', ''00_projects'', p @ ''_x''], Dir)) allPairs"
    by (simp add: filter_map o_def)
  have "readdirSync saturatedVault [''vault'', ''00_projects'']
        = Inr (map (\<lambda>e. last (fst e))
            (filter (\<lambda>e. fst e \<noteq> [] \<and> butlast (fst e) = [''vault'', ''00_projects''])
               saturatedVault))"
    by (simp add: readdirSync_def l)
  also have "filter (\<lambda>e. fst e \<noteq> [] \<and> butlast (fst e) = [''vault'', ''00_projects''])
               saturatedVault
             = map (\<lambda>p. ([''vault'', ''00_projects'', p @ ''_x''], Dir)) allPairs"
    unfolding saturatedVault_def filter_append f by simp
  finally show ?thesis by (simp add: o_def)
qed

lemma saturated_areas: "\<not> existsSync saturatedVault [''vault'', ''01_areas'']"
proof -
  have "map_of (map (\<lambda>p. ([''vault'', ''00_projects'', p @ ''_x''], Dir)) allPairs)
          [''vault'', ''01_areas''] = None"
    by (auto simp: map_of_eq_None_iff)
  then show ?thesis by (simp add: existsSync_def lookup_def saturatedVault_def)
qed

lemma demo_paths:
  "join (vault demoConfig) [projectsRoot demoConfig] = [''vault'', ''00_projects'']"
  "join (vault demoConfig) [areasRoot demoConfig] = [''vault'', ''01_areas'']"
  by (simp_all add: join_def vault_def pathOf_def segments_def demoConfig_def)

lemma saturated_existing:
  "existingPrefixes demoConfig saturatedVault
   = Inr (map (take 2) (filter (\<lambda>d. CHR ''_'' \<in> set d) (map (\<lambda>p. p @ ''_x'') allPairs)))"
proof -
  have 1: "collectPrefixes saturatedVault [''vault'', ''00_projects'']
           = Inr (map (take 2) (filter (\<lambda>d. CHR ''_'' \<in> set d) (map (\<lambda>p. p @ ''_x'') allPairs)))"
    unfolding collectPrefixes_def
    by (simp only: readdirSync_exists[OF saturated_projects] if_True saturated_projects sum.case)
  have 2: "collectPrefixes saturatedVault [''vault'', ''01_areas''] = Inr []"
    unfolding collectPrefixes_def using saturated_areas by (simp only: if_False)
  show ?thesis
    unfolding existingPrefixes_def demo_paths 1 2 by (simp only: sum.case append_Nil2)
qed

lemma saturated_all_taken:
  "drawPrefix 2 rnd k
   \<in> set (map (take 2) (filter (\<lambda>d. CHR ''_'' \<in> set d) (map (\<lambda>p. p @ ''_x'') allPairs)))"
proof -
  let ?p = "drawPrefix 2 rnd k"
  have in_pairs: "?p \<in> set allPairs" by (rule drawPrefix_in_allPairs)
  have len: "length ?p = 2" by (simp add: drawPrefix_two)
  have "?p @ ''_x'' \<in> set (map (\<lambda>p. p @ ''_x'') allPairs)"
    unfolding set_map by (rule imageI) (rule in_pairs)
  moreover have "CHR ''_'' \<in> set (?p @ ''_x'')" by simp
  ultimately
  have "?p @ ''_x'' \<in> set (filter (\<lambda>d. CHR ''_'' \<in> set d) (map (\<lambda>p. p @ ''_x'') allPairs))"
    by (simp only: set_filter mem_Collect_eq simp_thms)
  moreover have "take 2 (?p @ ''_x'') = ?p" using len by simp
  ultimately have "?p \<in> take 2 ` set (filter (\<lambda>d. CHR ''_'' \<in> set d) (map (\<lambda>p. p @ ''_x'') allPairs))"
    by (simp only: image_iff) (rule bexI[of _ "?p @ ''_x''"], simp_all only: refl)
  then show ?thesis by (simp only: set_map)
qed

text \<open>
  Claim C5, as the specification states it, asks that the sampling loop ends on every
  input, also in a vault where all 676 pairs of letters are taken. In the saturated vault
  every draw is an existing prefix and the loop goes on for ever: the function has no
  result.
\<close>

theorem generateUniquePrefix_saturated_counterexample:
  "generateUniquePrefix demoConfig saturatedVault countingDraws 0 = None"
proof -
  have "sampleUntilFree 2 countingDraws
          (map (take 2) (filter (\<lambda>d. CHR ''_'' \<in> set d) (map (\<lambda>p. p @ ''_x'') allPairs))) 0
        = None"
    by (rule sampleUntilFree_never) (rule saturated_all_taken)
  then show ?thesis
    unfolding generateUniquePrefix_def saturated_existing by (simp only: sum.case option.map)
qed

text \<open>
  Claim C5, as amended. generateUniquePrefix ends exactly when the scan of the two roots
  fails with an exception or the random source draws, at some round of the loop, a pair of
  letters that is not among the existing prefixes. (In a saturated vault there is no such
  pair.)
\<close>

theorem generateUniquePrefix_terminates_iff:
  "generateUniquePrefix config fs rnd i \<noteq> None
   \<longleftrightarrow> (case existingPrefixes config fs of
          Inl e \<Rightarrow> True
        | Inr existing \<Rightarrow> \<exists>k. drawPrefix 2 rnd (i + 2 * k) \<notin> set existing)"
proof (cases "existingPrefixes config fs")
  case (Inl e)
  then show ?thesis by (simp add: generateUniquePrefix_def)
next
  case (Inr existing)
  have "sampleUntilFree 2 rnd existing i \<noteq> None
        \<longleftrightarrow> (\<exists>k. drawPrefix 2 rnd (i + 2 * k) \<notin> set existing)"
  proof
    assume "sampleUntilFree 2 rnd existing i \<noteq> None"
    then obtain r where "sampleUntilFree 2 rnd existing i = Some r" by blast
    from sampleUntilFree_result[OF this] show "\<exists>k. drawPrefix 2 rnd (i + 2 * k) \<notin> set existing"
      by auto
  next
    assume "\<exists>k. drawPrefix 2 rnd (i + 2 * k) \<notin> set existing"
    then obtain k where "drawPrefix 2 rnd (i + 2 * k) \<notin> set existing" ..
    from sampleUntilFree_finds[OF this] show "sampleUntilFree 2 rnd existing i \<noteq> None" by auto
  qed
  with Inr show ?thesis by (simp add: generateUniquePrefix_def)
qed

lemma demo_existing: "existingPrefixes demoConfig demoVault = Inr [''ab'', ''cd'']"
  by code_simp

theorem generateUniquePrefix_terminates_iff_witness:
  "existingPrefixes demoConfig demoVault = Inr [''ab'', ''cd'']
   \<and> drawPrefix 2 countingDraws (0 + 2 * 2) = ''ef''
   \<and> generateUniquePrefix demoConfig demoVault countingDraws 0 \<noteq> None"
proof -
  have d: "drawPrefix 2 countingDraws (0 + 2 * 2) = ''ef''" by code_simp
  then have "\<exists>k. drawPrefix 2 countingDraws (0 + 2 * k) \<notin> set [''ab'', ''cd'']"
    by (intro exI[of _ 2]) simp
  with generateUniquePrefix_terminates_iff[of demoConfig demoVault countingDraws 0] demo_existing d
  show ?thesis by simp
qed

section \<open>Properties of the file system and of paths\<close>

lemma lookup_update:
  "q \<noteq> [] \<Longrightarrow> lookup (AList.update p v fs) q = (if q = p then Some v else lookup fs q)"
  by (simp add: lookup_def update_conv')


lemma writeFileSync_lookup:
  assumes "writeFileSync fs p text = Inr fs'"
  shows "lookup fs' p = Some (File text)"
proof -
  have ne: "p \<noteq> []" using assms by (auto simp: writeFileSync_def lookup_def)
  have "fs' = AList.update p (File text) fs"
    using assms by (auto simp: writeFileSync_def split: option.splits node.splits)
  then show ?thesis using ne by (simp add: lookup_update)
qed











section \<open>Joined paths\<close>

lemma splitOn_nonempty [simp]: "splitOn sep s \<noteq> []"
  by (induction s) (auto split: list.splits)

lemma splitOn_append_sep: "splitOn sep (a @ sep # b) = splitOn sep a @ splitOn sep b"
proof (induction a)
  case Nil
  show ?case by simp
next
  case (Cons c a)
  obtain p ps where p: "splitOn sep a = p # ps" by (cases "splitOn sep a") auto
  show ?case using Cons p by simp
qed

lemma splitOn_no_sep: "x \<in> set (splitOn sep s) \<Longrightarrow> sep \<notin> set x"
proof (induction s arbitrary: x)
  case Nil
  then show ?case by simp
next
  case (Cons c s)
  obtain p ps where p: "splitOn sep s = p # ps" by (cases "splitOn sep s") auto
  show ?case
  proof (cases "c = sep")
    case True
    with Cons show ?thesis by auto
  next
    case False
    with Cons.prems p have "x = c # p \<or> x \<in> set ps" by simp
    with Cons.IH[of p] Cons.IH[of x] p False show ?thesis by auto
  qed
qed

lemma joinSegs_Cons: "ps \<noteq> [] \<Longrightarrow> joinSegs (p # ps) = p @ ''/'' @ joinSegs ps"
  by (cases ps) auto

lemma joinSegs_snoc_nonempty: "n \<noteq> [] \<Longrightarrow> joinSegs (xs @ [n]) \<noteq> []"
  by (induction xs) (auto simp: joinSegs_Cons)

lemma splitOn_joinSegs:
  "L \<noteq> [] \<Longrightarrow> \<forall>x\<in>set L. CHR ''/'' \<notin> set x \<Longrightarrow> splitOn CHR ''/'' (joinSegs L) = L"
proof (induction L rule: joinSegs.induct)
  case 1
  then show ?case by simp
next
  case (2 s)
  then show ?case by (simp add: splitOn_plain)
next
  case (3 s t ss)
  have "splitOn CHR ''/'' (s @ CHR ''/'' # joinSegs (t # ss))
        = splitOn CHR ''/'' s @ splitOn CHR ''/'' (joinSegs (t # ss))"
    by (rule splitOn_append_sep)
  with 3 show ?case by (simp add: splitOn_plain)
qed

lemma normalizeSegs_append:
  "normalizeSegs a acc (xs @ ys) = normalizeSegs a (normalizeSegs a acc xs) ys"
  by (induction xs arbitrary: acc) auto

lemma normalizeSegs_name:
  "n \<noteq> [] \<Longrightarrow> n \<noteq> ''.'' \<Longrightarrow> n \<noteq> ''..'' \<Longrightarrow>
   normalizeSegs a acc (xs @ [n]) = normalizeSegs a acc xs @ [n]"
  by (simp add: normalizeSegs_append)

lemma normalizeSegs_set: "set (normalizeSegs a acc xs) \<subseteq> set acc \<union> set xs"
proof (induction xs arbitrary: acc)
  case Nil
  show ?case by simp
next
  case (Cons x xs)
  have b: "set (butlast acc) \<subseteq> set acc" by (auto dest: in_set_butlastD)
  from Cons[of acc] Cons[of "butlast acc"] Cons[of "acc @ [x]"] b show ?case
    by (auto split: if_splits)
qed

text \<open>Normalising a relative path before it is joined to a base changes nothing: the
  leading \<^verbatim>\<open>..\<close> segments that the first pass keeps climb from the base in the second.\<close>

lemma normalizeSegs_renormalize:
  "\<forall>a\<in>set acc. a \<noteq> [] \<and> a \<noteq> ''.'' \<Longrightarrow>
   normalizeSegs False base (normalizeSegs True acc xs)
   = normalizeSegs False (normalizeSegs False base acc) xs"
proof (induction xs arbitrary: acc)
  case Nil
  show ?case by simp
next
  case (Cons x xs)
  let ?A = "normalizeSegs False base acc"
  show ?case
  proof (cases "x = ''..'' \<and> acc \<noteq> [] \<and> last acc \<noteq> ''..''")
    case True
    then have acc: "acc = butlast acc @ [last acc]" by simp
    have l: "last acc \<noteq> []" "last acc \<noteq> ''.''" "last acc \<noteq> ''..''"
      using True Cons.prems last_in_set[of acc] by auto
    have "normalizeSegs False base (butlast acc @ [last acc])
          = normalizeSegs False base (butlast acc) @ [last acc]"
      by (rule normalizeSegs_name[OF l])
    with acc have A: "?A = normalizeSegs False base (butlast acc) @ [last acc]" by simp
    have inv: "\<forall>a\<in>set (butlast acc). a \<noteq> [] \<and> a \<noteq> ''.''"
      using Cons.prems by (auto dest: in_set_butlastD)
    have "normalizeSegs False ?A (x # xs)
          = normalizeSegs False (normalizeSegs False base (butlast acc)) xs"
      using True l by (subst A) simp
    with Cons.IH[OF inv] True show ?thesis by simp
  next
    case False
    show ?thesis
    proof (cases "x = [] \<or> x = ''.''")
      case True
      with Cons.IH[OF Cons.prems] show ?thesis by auto
    next
      case notskip: False
      have step: "normalizeSegs True acc (x # xs) = normalizeSegs True (acc @ [x]) xs"
        using False notskip by auto
      have inv: "\<forall>a\<in>set (acc @ [x]). a \<noteq> [] \<and> a \<noteq> ''.''"
        using Cons.prems notskip by auto
      have "normalizeSegs False base (acc @ [x]) = normalizeSegs False ?A [x]"
        by (rule normalizeSegs_append)
      moreover have "normalizeSegs False ?A (x # xs)
          = normalizeSegs False (normalizeSegs False ?A [x]) xs"
        using normalizeSegs_append[of False ?A "[x]" xs] by simp
      ultimately show ?thesis using Cons.IH[OF inv] step by simp
    qed
  qed
qed

text \<open>
  markWork keeps the container as the string \<^verbatim>\<open>join(root, dir)\<close> and joins that to the vault
  path again for the target. For a root given relative to the vault this names the
  container, whatever the root is made of.
\<close>

lemma joinStr_relative:
  assumes rel: "\<not> startsWith root ''/''" and d: "properName dir"
  shows "join base [joinStr [root, dir]] = join base [root, dir]"
proof -
  let ?N = "normalizeSegs True [] (segments root)"
  have dne: "dir \<noteq> []" and dns: "CHR ''/'' \<notin> set dir" and dd: "dir \<noteq> ''.''" "dir \<noteq> ''..''"
    using d by (simp_all add: properName_def)
  have dh: "hd dir \<noteq> CHR ''/''" using dne dns by (cases dir) auto
  have dl: "last dir \<noteq> CHR ''/''" using dne dns by (cases dir rule: rev_cases) auto
  have sd: "segments dir = [dir]" by (simp add: segments_def splitOn_plain dns)
  have body: "joinSegs (?N @ [dir]) \<noteq> []" by (rule joinSegs_snoc_nonempty[OF dne])
  have str: "joinStr [root, dir] = joinSegs (?N @ [dir])"
  proof (cases "root = []")
    case True
    have "normalizeSegs True [] (segments dir) = [dir]" using sd dne dd by simp
    moreover have "?N = []" using True by (simp add: segments_def)
    ultimately have "normalizeStr dir = dir"
      using dne dh dl by (simp add: normalizeStr_def Let_def)
    with True dne \<open>?N = []\<close> show ?thesis by (simp add: joinStr_def Let_def)
  next
    case False
    let ?j = "root @ ''/'' @ dir"
    have j: "joinSegs (filter (\<lambda>p. p \<noteq> []) [root, dir]) = ?j" using False dne by simp
    have "hd root \<noteq> CHR ''/''" using rel False by (cases root) (auto simp: startsWith_def)
    then have jh: "hd ?j \<noteq> CHR ''/''" using False by simp
    have jl: "last ?j \<noteq> CHR ''/''" using dl dne by simp
    have "segments ?j = segments root @ [dir]"
      using splitOn_append_sep[of "CHR ''/''" root dir] sd by (simp add: segments_def)
    then have "normalizeSegs True [] (segments ?j) = ?N @ [dir]"
      using normalizeSegs_name[OF dne dd, of True "[]" "segments root"] by simp
    then have "normalizeStr ?j = joinSegs (?N @ [dir])"
      using body jh jl by (simp add: normalizeStr_def Let_def del: append.simps)
    then show ?thesis unfolding joinStr_def Let_def j by (simp del: append.simps)
  qed
  have "\<forall>x\<in>set (?N @ [dir]). CHR ''/'' \<notin> set x"
    using normalizeSegs_set[of True "[]" "segments root"] splitOn_no_sep[of _ "CHR ''/''" root] dns
    by (auto simp: segments_def)
  then have seg: "segments (joinSegs (?N @ [dir])) = ?N @ [dir]"
    unfolding segments_def by (intro splitOn_joinSegs) simp_all
  have "join base [joinStr [root, dir]] = normalizeSegs False base (?N @ [dir])"
    by (simp add: join_def str seg)
  also have "\<dots> = normalizeSegs False base ?N @ [dir]" by (rule normalizeSegs_name[OF dne dd])
  also have "normalizeSegs False base ?N = normalizeSegs False base (segments root)"
    using normalizeSegs_renormalize[of "[]" base "segments root"] by simp
  also have "normalizeSegs False base (segments root) @ [dir]
             = normalizeSegs False base (segments root @ [dir])"
    by (rule normalizeSegs_name[OF dne dd, symmetric])
  also have "\<dots> = join base [root, dir]" by (simp add: join_def sd)
  finally show ?thesis .
qed

section \<open>Properties of the mark operation\<close>

lemma find_SomeD: "find P xs = Some x \<Longrightarrow> x \<in> set xs \<and> P x"
  by (induction xs) (auto split: if_splits)

lemma scanStatus_found:
  "scanStatus fs base ip stats = Inr (Some (statusPath, found)) \<Longrightarrow>
   \<exists>listing. readdirSync fs statusPath = Inr listing \<and> found \<in> set listing
     \<and> startsWith found (ip @ ''_'')"
proof (induction stats)
  case Nil
  then show ?case by simp
next
  case (Cons stat stats)
  show ?case
  proof (cases "existsSync fs (join base [stat])")
    case False
    with Cons show ?thesis by simp
  next
    case True
    show ?thesis
    proof (cases "readdirSync fs (join base [stat])")
      case (Inl e)
      with True Cons.prems show ?thesis by simp
    next
      case (Inr listing)
      show ?thesis
      proof (cases "find (\<lambda>f. startsWith f (ip @ ''_'')) listing")
        case None
        with True Inr Cons show ?thesis by simp
      next
        case (Some f)
        with True Inr Cons.prems have "statusPath = join base [stat]" "found = f" by simp_all
        with Inr find_SomeD[OF Some] show ?thesis by auto
      qed
    qed
  qed
qed

lemma searchRoot_found:
  assumes "searchRoot config fs root sub fp ip = Inr (Some (sf, fn, sp))"
  shows "\<exists>statusPath listing. readdirSync fs statusPath = Inr listing \<and> fn \<in> set listing
           \<and> startsWith fn (ip @ ''_'') \<and> sp = join statusPath [fn]"
proof -
  from assms obtain dir statusPath where
    "scanStatus fs (join (vault config) ([root, dir] @ sub)) ip validStatuses
       = Inr (Some (statusPath, fn))" and "sp = join statusPath [fn]"
    by (auto simp: searchRoot_def split: if_splits sum.splits option.splits)
  with scanStatus_found show ?thesis by blast
qed





section \<open>The rewritten text of a work item\<close>






































section \<open>The mark operation on the example vault\<close>

text \<open>
  Claim C1 says that a mark operation that completes only relocates the item, also when the
  target status is the folder the item is in. For a target status other than \<^verbatim>\<open>done\<close> that
  is the item's own folder, target path and source path are the same path: the code writes
  the rewritten text there and then unlinks that very path. In the example vault the work
  item \<open>xy_task.md\<close> lies in \<^verbatim>\<open>work/active\<close>; \<^verbatim>\<open>mark work --prefix ab --item xy --status active\<close>
  returns, and afterwards the folder lists nothing and the vault holds no file at all.
\<close>

theorem markWork_same_status_deletes:
  "lookup demoVault [''vault'', ''00_projects'', ''ab_site'', ''work'', ''active'', ''xy_task.md'']
     = Some (File demoTask)
   \<and> fst (markCommand demoConfig demoVault ''work'' ''ab'' ''xy'' ''active'') = Returned
   \<and> lookup (snd (markCommand demoConfig demoVault ''work'' ''ab'' ''xy'' ''active''))
       [''vault'', ''00_projects'', ''ab_site'', ''work'', ''active'', ''xy_task.md''] = None
   \<and> readdirSync (snd (markCommand demoConfig demoVault ''work'' ''ab'' ''xy'' ''active''))
       [''vault'', ''00_projects'', ''ab_site'', ''work'', ''active''] = Inr []
   \<and> filter (\<lambda>e. snd e \<noteq> Dir) (snd (markCommand demoConfig demoVault ''work'' ''ab'' ''xy'' ''active''))
       = []"
  by code_simp

section \<open>createEntity on the example vault\<close>

text \<open>
  Claim C9 says that no file written by createEntity holds the marker \<open>{{cursor}}\<close>. Rendering
  removes every marker of the template (\<open>cursor\<close> is not a variable), but a value may bring
  the text in, and \<^verbatim>\<open>content.replace("{{cursor}}", "")\<close> with a string pattern removes the first
  occurrence only. With the title \<open>{{cursor}} and {{cursor}}\<close> the written resource still
  holds the marker.
\<close>

theorem createEntity_cursor_remains:
  "newCommand demoConfig demoVault countingDraws ''2026-11-03'' ''resource''
      (Some ''{{cursor}} and {{cursor}}'') noOptions
   = Some (Returned,
       demoVault @
       [([''vault'', ''02_resources''], Dir),
        ([''vault'', ''02_resources'', ''cursor-and-cursor.md''],
         File ''#  and {{cursor}}\<newline>\<newline>\<newline>'')])
   \<and> sublist ''{{cursor}}'' ''#  and {{cursor}}\<newline>\<newline>\<newline>''"
proof -
  have "''#  and {{cursor}}\<newline>\<newline>\<newline>'' = ''#  and '' @ ''{{cursor}}'' @ ''\<newline>\<newline>\<newline>''"
    by simp
  then have "sublist ''{{cursor}}'' ''#  and {{cursor}}\<newline>\<newline>\<newline>''"
    unfolding sublist_def by blast
  moreover have "newCommand demoConfig demoVault countingDraws ''2026-11-03'' ''resource''
      (Some ''{{cursor}} and {{cursor}}'') noOptions
   = Some (Returned,
       demoVault @
       [([''vault'', ''02_resources''], Dir),
        ([''vault'', ''02_resources'', ''cursor-and-cursor.md''],
         File ''#  and {{cursor}}\<newline>\<newline>\<newline>'')])"
    by code_simp
  ultimately show ?thesis by simp
qed

section \<open>Properties of the new command\<close>

lemma createEntity_existing:
  assumes "prepareEntity config fs rnd date type title options = Some (Inr (tmpl, vars))"
    and "filePath tmpl = Some pattern" and "pattern \<noteq> []"
    and "existsSync fs (join (vault config) [renderTemplate pattern vars])"
  shows "createEntity config fs rnd date type title options = Some (Exit1, fs)"
  using assms by (simp add: createEntity_def writeEntity_def writeSingle_def given_def orElse_def)

lemma createInResourceFolder_existing:
  assumes "existsSync fs
     (join (vault config) [resourcesRoot config, resourceDir, slugify actualTitle @ ''.md''])"
  shows "createInResourceFolder config fs date resourceDir actualTitle pfx opts = (Exit1, fs)"
  using assms by (simp add: createInResourceFolder_def)

lemma prepare_resource:
  assumes "\<not> given (optPrefix opts)" and "templates config ''resource'' = Some tmpl"
  shows "prepareEntity config fs rnd date ''resource'' title opts
         = Some (Inr (tmpl, buildVars ''resource'' title date opts (optPrefix opts) []
                   [] (orElse (optArea opts) ''pb_personal_blog'')))"
  using assms
  by (simp add: prepareEntity_def templateNamed_def actualTypeOf_def choosePrefix_def
      chooseWorkItemPrefix_def choosePostPrefix_def)

lemma new_resource_is_create:
  assumes "\<not> given (optPrefix opts)"
  shows "newCommand config fs rnd date ''resource'' title opts
         = createEntity config fs rnd date ''resource'' (orElse title ''Untitled'') opts"
  using assms by (simp add: newCommand_def)

lemma writeSingle_returned:
  assumes "writeSingle config fs tmpl vars pattern = (Returned, fs1)"
  shows "existsSync fs1 (join (vault config) [renderTemplate pattern vars])"
proof -
  from assms obtain fs0 written where
    "writeFileSync fs0 (join (vault config) [renderTemplate pattern vars]) written = Inr fs1"
    by (auto simp: writeSingle_def split: if_splits sum.splits option.splits)
  from writeFileSync_lookup[OF this] show ?thesis by (simp add: existsSync_def)
qed

lemma new_resource_twice:
  assumes np: "\<not> given (optPrefix opts)"
    and t: "templates config ''resource'' = Some tmpl" and single: "given (filePath tmpl)"
    and first: "newCommand config fs rnd date ''resource'' title opts = Some (Returned, fs1)"
  shows "newCommand config fs1 rnd date ''resource'' title opts = Some (Exit1, fs1)"
proof -
  let ?title = "orElse title ''Untitled''"
  let ?vars = "buildVars ''resource'' ?title date opts (optPrefix opts) [] []
                 (orElse (optArea opts) ''pb_personal_blog'')"
  let ?pattern = "orElse (filePath tmpl) []"
  have c: "createEntity config f rnd date ''resource'' ?title opts
           = Some (writeSingle config f tmpl ?vars ?pattern)" for f
    using single by (simp add: createEntity_def prepare_resource[OF np t] writeEntity_def)
  from first have "writeSingle config fs tmpl ?vars ?pattern = (Returned, fs1)"
    by (simp add: new_resource_is_create[OF np] c)
  from writeSingle_returned[OF this]
  have "writeSingle config fs1 tmpl ?vars ?pattern = (Exit1, fs1)"
    by (simp add: writeSingle_def)
  then show ?thesis by (simp add: new_resource_is_create[OF np] c)
qed

lemma writeFiles_not_exit: "fst (writeFiles fs folderPath vars fileDefs) \<noteq> Exit1"
  by (induction fileDefs arbitrary: fs) (auto split: sum.splits)

lemma writeEntity_exit:
  assumes "writeEntity config fs tmpl vars = (Exit1, fs')"
  shows "fs' = fs"
proof (cases "given (filePath tmpl)")
  case True
  with assms show ?thesis
    by (auto simp: writeEntity_def writeSingle_def split: if_splits sum.splits option.splits)
next
  case False
  with assms have w: "writeFolder config fs tmpl vars = (Exit1, fs')"
    by (simp add: writeEntity_def)
  show ?thesis
  proof (rule ccontr)
    assume "fs' \<noteq> fs"
    with w obtain fs1 p fileDefs where "writeFiles fs1 p vars fileDefs = (Exit1, fs')"
      by (auto simp: writeFolder_def split: if_splits sum.splits option.splits)
    with writeFiles_not_exit[of fs1 p vars fileDefs] show False by simp
  qed
qed

lemma createEntity_exit:
  assumes "createEntity config fs rnd date type title options = Some (Exit1, fs')"
  shows "fs' = fs"
  using assms writeEntity_exit
  by (auto simp: createEntity_def split: option.splits sum.splits)

lemma createInResourceFolder_exit:
  assumes "createInResourceFolder config fs date resourceDir actualTitle pfx opts = (Exit1, fs')"
  shows "fs' = fs"
  using assms
  by (auto simp: createInResourceFolder_def split: if_splits sum.splits option.splits)

lemma newCommand_exit:
  assumes "newCommand config fs rnd date type title opts = Some (Exit1, fs')"
  shows "fs' = fs"
  using assms createEntity_exit createInResourceFolder_exit
  by (auto simp: newCommand_def Let_def split: if_splits sum.splits option.splits)

text \<open>
  Claim C7. Where a \<^verbatim>\<open>new\<close> invocation comes to write a single file (createEntity with a
  single-file template, or the action's own write into an existing resource folder) and the
  rendered target path already exists, the command ends with exit code 1 and the file
  system is the one it started from: the existing file and every other file are unchanged.
  Every end of the command with exit code 1 leaves the file system as it was. So
  \<^verbatim>\<open>new resource\<close> run again with the same title, options and date, after a run that
  returned, ends with exit code 1 and leaves the vault of the first run as it is.
\<close>

theorem new_existing_target_unchanged:
  "(prepareEntity config fs rnd date type title options = Some (Inr (tmpl, vars))
      \<and> filePath tmpl = Some pattern \<and> pattern \<noteq> []
      \<and> existsSync fs (join (vault config) [renderTemplate pattern vars])
    \<longrightarrow> createEntity config fs rnd date type title options = Some (Exit1, fs))
   \<and> (existsSync fs
        (join (vault config) [resourcesRoot config, resourceDir, slugify title @ ''.md''])
    \<longrightarrow> createInResourceFolder config fs date resourceDir title pfx options = (Exit1, fs))
   \<and> (newCommand config fs rnd date type arg options = Some (Exit1, fs2) \<longrightarrow> fs2 = fs)
   \<and> (\<not> given (optPrefix options) \<and> templates config ''resource'' = Some tmpl
      \<and> given (filePath tmpl)
      \<and> newCommand config fs rnd date ''resource'' (Some title) options = Some (Returned, fs1)
    \<longrightarrow> newCommand config fs1 rnd date ''resource'' (Some title) options = Some (Exit1, fs1))"
proof (intro conjI impI)
  assume "prepareEntity config fs rnd date type title options = Some (Inr (tmpl, vars))
      \<and> filePath tmpl = Some pattern \<and> pattern \<noteq> []
      \<and> existsSync fs (join (vault config) [renderTemplate pattern vars])"
  then show "createEntity config fs rnd date type title options = Some (Exit1, fs)"
    using createEntity_existing[of config fs rnd date type title options tmpl vars pattern]
    by simp
next
  assume "existsSync fs
        (join (vault config) [resourcesRoot config, resourceDir, slugify title @ ''.md''])"
  then show "createInResourceFolder config fs date resourceDir title pfx options = (Exit1, fs)"
    by (rule createInResourceFolder_existing)
next
  assume "newCommand config fs rnd date type arg options = Some (Exit1, fs2)"
  then show "fs2 = fs" by (rule newCommand_exit)
next
  assume "\<not> given (optPrefix options) \<and> templates config ''resource'' = Some tmpl
      \<and> given (filePath tmpl)
      \<and> newCommand config fs rnd date ''resource'' (Some title) options = Some (Returned, fs1)"
  then show "newCommand config fs1 rnd date ''resource'' (Some title) options = Some (Exit1, fs1)"
    using new_resource_twice[of options config tmpl fs rnd date "Some title" fs1] by simp
qed

lemma demo_resource_template:
  "templates demoConfig ''resource''
   = Some \<lparr> folderPattern = None, filePath = Some ''02_resources/{{slug}}.md'', files = None,
            template = Some ''# {{title}}\<newline>\<newline>{{cursor}}\<newline>'' \<rparr>"
  by (simp add: demoConfig_def demoTemplates_def)

lemma demo_no_prefix: "\<not> given (optPrefix noOptions)"
  by (simp add: noOptions_def given_def)

lemma demo_first_run:
  "newCommand demoConfig demoVault countingDraws ''2026-11-03'' ''resource'' (Some ''X'') noOptions
   = Some (Returned, resourceVault)"
  by code_simp

lemma demo_target_exists:
  "existsSync resourceVault
     (join (vault demoConfig)
        [renderTemplate ''02_resources/{{slug}}.md''
           (buildVars ''resource'' ''X'' ''2026-11-03'' noOptions (optPrefix noOptions) [] []
              (orElse (optArea noOptions) ''pb_personal_blog''))])"
  by code_simp

lemma demo_folder_target_exists:
  "existsSync folderVault
     (join (vault demoConfig) [resourcesRoot demoConfig, ''ab_refs'', slugify ''X'' @ ''.md''])"
  by code_simp

theorem new_existing_target_unchanged_witness:
  "createEntity demoConfig resourceVault countingDraws ''2026-11-03'' ''resource'' ''X'' noOptions
     = Some (Exit1, resourceVault)
   \<and> createInResourceFolder demoConfig folderVault ''2026-11-03'' ''ab_refs'' ''X'' ''ab'' noOptions
     = (Exit1, folderVault)
   \<and> newCommand demoConfig demoVault countingDraws ''2026-11-03'' ''resource'' (Some ''X'') noOptions
     = Some (Returned, resourceVault)
   \<and> newCommand demoConfig resourceVault countingDraws ''2026-11-03'' ''resource'' (Some ''X'') noOptions
     = Some (Exit1, resourceVault)"
proof -
  let ?tmpl = "\<lparr> folderPattern = None, filePath = Some ''02_resources/{{slug}}.md'', files = None,
            template = Some ''# {{title}}\<newline>\<newline>{{cursor}}\<newline>'' \<rparr>"
  let ?vars = "buildVars ''resource'' ''X'' ''2026-11-03'' noOptions (optPrefix noOptions) [] []
              (orElse (optArea noOptions) ''pb_personal_blog'')"
  have prep: "prepareEntity demoConfig resourceVault countingDraws ''2026-11-03'' ''resource'' ''X''
      noOptions = Some (Inr (?tmpl, ?vars))"
    by (rule prepare_resource[OF demo_no_prefix demo_resource_template])
  have a: "createEntity demoConfig resourceVault countingDraws ''2026-11-03'' ''resource'' ''X''
      noOptions = Some (Exit1, resourceVault)"
    using new_existing_target_unchanged[where config = demoConfig and fs = resourceVault
        and rnd = countingDraws and date = "''2026-11-03''" and type = "''resource''"
        and title = "''X''" and options = noOptions and tmpl = ?tmpl and vars = ?vars
        and pattern = "''02_resources/{{slug}}.md''"]
      prep demo_target_exists
    by simp
  have b: "createInResourceFolder demoConfig folderVault ''2026-11-03'' ''ab_refs'' ''X'' ''ab''
      noOptions = (Exit1, folderVault)"
    using new_existing_target_unchanged[where config = demoConfig and fs = folderVault
        and date = "''2026-11-03''" and title = "''X''" and options = noOptions
        and resourceDir = "''ab_refs''" and pfx = "''ab''"]
      demo_folder_target_exists
    by simp
  have c: "newCommand demoConfig resourceVault countingDraws ''2026-11-03'' ''resource'' (Some ''X'')
      noOptions = Some (Exit1, resourceVault)"
    using new_existing_target_unchanged[where config = demoConfig and fs = demoVault
        and rnd = countingDraws and date = "''2026-11-03''" and title = "''X''"
        and options = noOptions and tmpl = ?tmpl and ?fs1.0 = resourceVault]
      demo_no_prefix demo_resource_template demo_first_run
    by (simp add: given_def)
  have d: "resourceVault = resourceVault"
    using new_existing_target_unchanged[where config = demoConfig and fs = resourceVault
        and rnd = countingDraws and date = "''2026-11-03''" and type = "''resource''"
        and arg = "Some ''X''" and options = noOptions and ?fs2.0 = resourceVault] c
    by simp
  from a b c d demo_first_run show ?thesis by simp
qed

end
